theory Spec2Isabelle
  imports Main "HOL-Library.Char_ord" "HOL-Library.List_Lexorder" "HOL-Library.Sublist"
    "HOL-Library.Word"
begin

section \<open>Python helpers\<close>

text \<open>
  Python strings are modelled as \<open>string\<close>. Exceptions are values: every \<open>raise ValueError(...)\<close>
  of the source is \<open>Inl (ValueError msg)\<close>, where \<open>msg\<close> is the fixed head of the message.
\<close>

datatype error = ValueError string | OtherException string

text \<open>\<open>s.split(c)\<close> for a one-character separator: never empty, one more part than separators.\<close>

fun split :: "char \<Rightarrow> string \<Rightarrow> string list" where
  "split c [] = [[]]"
| "split c (x # xs) =
     (if x = c then [] # split c xs
      else (case split c xs of
              [] \<Rightarrow> [[x]]
            | p # ps \<Rightarrow> (x # p) # ps))"

text \<open>\<open>s.split(c, 1)\<close>: at most one split, at the first separator.\<close>

definition split_max1 :: "char \<Rightarrow> string \<Rightarrow> string list" where
  "split_max1 c s =
     (case dropWhile (\<lambda>x. x \<noteq> c) s of
        [] \<Rightarrow> [s]
      | _ # rest \<Rightarrow> [takeWhile (\<lambda>x. x \<noteq> c) s, rest])"

text \<open>Truthiness of an \<open>Optional[str]\<close>: \<open>None\<close> and the empty string are false.\<close>

fun truthy :: "string option \<Rightarrow> bool" where
  "truthy None = False"
| "truthy (Some s) = (s \<noteq> [])"

section \<open>rid_types.py: GitHubEvent\<close>

record GitHubEvent =
  repo_full_name :: string
  event_id :: string

text \<open>\<open>GitHubEvent.__init__\<close>: only the repository part is validated.\<close>

definition GitHubEvent_init :: "string \<Rightarrow> string \<Rightarrow> error + GitHubEvent" where
  "GitHubEvent_init repo_full_name' event_id' =
     (if CHR ''/'' \<notin> set repo_full_name' \<or> length (split CHR ''/'' repo_full_name') \<noteq> 2
      then Inl (ValueError ''Invalid repo_full_name format'')
      else Inr \<lparr>repo_full_name = repo_full_name', event_id = event_id'\<rparr>)"

text \<open>The property \<open>reference\<close>: \<open>f"{self.repo_full_name}:{self.event_id}"\<close>.\<close>

definition reference :: "GitHubEvent \<Rightarrow> string" where
  "reference self = repo_full_name self @ '':'' @ event_id self"

text \<open>\<open>GitHubEvent.from_reference\<close>.\<close>

definition from_reference :: "string \<Rightarrow> error + GitHubEvent" where
  "from_reference reference' =
     (let parts = split_max1 CHR '':'' reference' in
      if length parts \<noteq> 2 then Inl (ValueError ''Invalid GitHubEvent reference format'')
      else
        (let repo_full_name' = parts ! 0; event_id' = parts ! 1 in
         if CHR ''/'' \<notin> set repo_full_name' \<or> length (split CHR ''/'' repo_full_name') \<noteq> 2
         then Inl (ValueError ''Invalid repository part in GitHubEvent reference'')
         else if event_id' = []
         then Inl (ValueError ''Event ID part cannot be empty in GitHubEvent reference'')
         else GitHubEvent_init repo_full_name' event_id'))"

section \<open>handlers.py: the manifest handler for GitHubEvent\<close>

datatype koi_event_type = NEW | UPDATE | FORGET

record Manifest =
  sha256_hash :: string
  timestamp :: int

text \<open>A cached bundle; only its manifest is read by the handler.\<close>

record Bundle =
  bundle_manifest :: "Manifest option"

datatype RID = GitHubEventRID GitHubEvent | OtherRID string

record KnowledgeObject =
  rid :: RID
  manifest :: "Manifest option"
  event_type :: "koi_event_type option"
  normalized_event_type :: "koi_event_type option"

text \<open>
  What a handler returns: the sentinel \<open>STOP_CHAIN\<close>, or the knowledge object for the rest of
  the chain. The second component of the handler's result is the levels of the log records
  it writes, in order.
\<close>

datatype handler_result = STOP_CHAIN | Continue KnowledgeObject

datatype log_level = DEBUG | INFO | WARNING | ERROR

text \<open>
  \<open>github_event_manifest_handler\<close>. \<open>cache_read\<close> is \<open>processor.cache.read\<close>: \<open>Inl\<close> when it
  raises, \<open>Inr None\<close> when nothing is cached. A bundle object is always true in a condition,
  a manifest is true when it is not \<open>None\<close>.
\<close>

definition github_event_manifest_handler ::
  "(RID \<Rightarrow> error + Bundle option) \<Rightarrow> KnowledgeObject \<Rightarrow> handler_result \<times> log_level list" where
  "github_event_manifest_handler cache_read kobj =
     (case rid kobj of
        OtherRID _ \<Rightarrow> (Continue kobj, [WARNING])
      | GitHubEventRID _ \<Rightarrow>
          (let (prev_bundle, read_log) =
                 (case cache_read (rid kobj) of
                    Inl e \<Rightarrow> (None, [ERROR])
                  | Inr b \<Rightarrow> (b, []))
           in case prev_bundle of
                Some prev \<Rightarrow>
                  (case (manifest kobj, bundle_manifest prev) of
                     (Some m, Some pm) \<Rightarrow>
                       if sha256_hash m = sha256_hash pm
                       then (STOP_CHAIN, [DEBUG] @ read_log @ [INFO])
                       else (Continue (kobj\<lparr>normalized_event_type := Some UPDATE\<rparr>),
                             [DEBUG] @ read_log @ [INFO] @
                               (if timestamp m \<le> timestamp pm then [WARNING] else []))
                   | _ \<Rightarrow> (Continue (kobj\<lparr>normalized_event_type := Some UPDATE\<rparr>),
                           [DEBUG] @ read_log @ [INFO]))
              | None \<Rightarrow>
                  (Continue (kobj\<lparr>normalized_event_type := Some NEW\<rparr>),
                   [DEBUG] @ read_log @ [INFO])))"

section \<open>webhook_handlers.py: the push handler\<close>

text \<open>
  \<open>hashlib.sha256(b).hexdigest()\<close> is the lower-case hexadecimal text of the digest bytes.
  The digest function itself is a parameter \<open>sha256\<close> of the handler.
\<close>

definition hex_digit :: "nat \<Rightarrow> char" where
  "hex_digit n = ''0123456789abcdef'' ! n"

definition hex_byte :: "8 word \<Rightarrow> string" where
  "hex_byte b = [hex_digit (unat b div 16), hex_digit (unat b mod 16)]"

definition hexdigest :: "8 word list \<Rightarrow> string" where
  "hexdigest bs = concat (map hex_byte bs)"

text \<open>\<open>s.replace(a, b)\<close> for single characters.\<close>

definition replace :: "char \<Rightarrow> char \<Rightarrow> string \<Rightarrow> string" where
  "replace a b s = map (\<lambda>c. if c = a then b else c) s"

text \<open>
  The validated \<open>PushEventPayload\<close>, with the fields the handler reads;
  \<open>repository_full_name\<close> is \<open>payload.repository.full_name\<close>.
\<close>

record PushEventPayload =
  ref :: string
  before :: string
  after :: string
  repository_full_name :: string
  deleted :: bool
  forced :: bool

datatype webhook_outcome =
    Dropped
  | Raised error
  | Handled GitHubEvent koi_event_type

definition zero_sha :: string where
  "zero_sha = ''0000000000000000000000000000000000000000''"

text \<open>
  \<open>handle_push_event\<close>. \<open>delivery_id\<close> is \<open>payload_dict.get("delivery_id")\<close>; \<open>validated\<close> is the
  result of \<open>PushEventPayload(**payload_dict)\<close>, \<open>None\<close> when it raises ValidationError (the
  handler logs and returns). \<open>Handled r t\<close> is the call
  \<open>node.processor.handle(bundle, event_type=t)\<close> for the identity \<open>r\<close>. \<open>push_event_id\<close> is the
  value of the variable \<open>event_id\<close> when the identity is built: \<open>delivery_id or payload.after\<close>,
  replaced when it is empty or the all-zero SHA.
\<close>

definition push_event_id :: "(string \<Rightarrow> 8 word list) \<Rightarrow> string option \<Rightarrow> PushEventPayload \<Rightarrow> string" where
  "push_event_id sha256 delivery_id payload =
     (let event_id0 = (case delivery_id of
                         Some d \<Rightarrow> if d \<noteq> [] then d else after payload
                       | None \<Rightarrow> after payload)
      in if event_id0 = [] \<or> event_id0 = zero_sha then
           (if deleted payload \<and> \<not> forced payload
            then ''delete_ref_'' @ replace CHR ''/'' CHR ''_'' (ref payload) @ ''_'' @ before payload
            else take 16 (hexdigest (sha256
                   (repository_full_name payload @ ''_push_'' @ ref payload @ ''_'' @
                    before payload @ ''_'' @ after payload))))
         else event_id0)"

definition handle_push_event ::
  "(string \<Rightarrow> 8 word list) \<Rightarrow> string option \<Rightarrow> PushEventPayload option \<Rightarrow> webhook_outcome" where
  "handle_push_event sha256 delivery_id validated =
     (case validated of
        None \<Rightarrow> Dropped
      | Some payload \<Rightarrow>
          (case GitHubEvent_init (repository_full_name payload)
                  (push_event_id sha256 delivery_id payload) of
             Inl e \<Rightarrow> Raised e
           | Inr github_event_rid \<Rightarrow> Handled github_event_rid NEW))"

section \<open>gh_api.py: the conditional API client\<close>

text \<open>
  The query parameters of a list request (the dictionary \<open>params\<close>, with the keys the client
  and its callers set), and the request handed to \<open>httpx\<close>. The \<open>If-None-Match\<close> header is
  attached only for a true \<open>etag\<close>; the other headers are the same on every request.
\<close>

record params =
  state_filter :: "string option"
  per_page :: "int option"
  since :: "string option"
  page :: "int option"

record request =
  http_method :: string
  path :: string
  query :: "params option"
  if_none_match :: "string option"

text \<open>
  What \<open>client.request\<close> does: it answers with a status code, the \<open>ETag\<close> header if any and
  the JSON body, or it raises \<open>httpx.RequestError\<close> (timeout, connection error). The upstream
  is a function of the request: within one backfill pass no request is sent twice, so no
  generality is lost.
\<close>

datatype 'b http_outcome =
    Response int "string option" 'b
  | RequestError

text \<open>\<open>response.raise_for_status()\<close> of httpx raises HTTPStatusError unless the status is 2xx.\<close>

definition raise_for_status :: "int \<Rightarrow> bool" where
  "raise_for_status status_code = (\<not> (200 \<le> status_code \<and> status_code < 300))"

definition github_request :: "string \<Rightarrow> string \<Rightarrow> params option \<Rightarrow> string option \<Rightarrow> request" where
  "github_request method' path' params' etag =
     \<lparr>http_method = method', path = path', query = params',
      if_none_match = (if truthy etag then etag else None)\<rparr>"

text \<open>
  \<open>_make_github_request\<close>: the pair (response body or \<open>None\<close>, ETag or \<open>None\<close>). No exception
  leaves it: both \<open>except\<close> branches return a pair.
\<close>

definition make_github_request ::
  "(request \<Rightarrow> 'b http_outcome) \<Rightarrow> string \<Rightarrow> string \<Rightarrow> params option \<Rightarrow> string option \<Rightarrow>
   'b option \<times> string option" where
  "make_github_request transport method' path' params' etag =
     (case transport (github_request method' path' params' etag) of
        Response status_code current_response_etag body \<Rightarrow>
          if status_code = 304 then (None, etag)
          else if raise_for_status status_code then (None, current_response_etag)
          else (Some body, current_response_etag)
      | RequestError \<Rightarrow> (None, None))"

definition get_repo_details ::
  "(request \<Rightarrow> 'b http_outcome) \<Rightarrow> string \<Rightarrow> string \<Rightarrow> string option \<Rightarrow> 'b option \<times> string option" where
  "get_repo_details transport owner repo etag =
     make_github_request transport ''GET'' (''/repos/'' @ owner @ ''/'' @ repo) None etag"

text \<open>
  \<open>get_repo_list_paged\<close>. The local variables of the loop, and \<open>requests_sent\<close>: the requests
  issued so far, in order (the effect of the function on the network).
\<close>

record 'a paged_state =
  loop_params :: params
  all_items :: "'a list"
  current_page_etag :: "string option"
  etag_to_return :: "string option"
  requests_sent :: "request list"

text \<open>One run of the loop body for \<open>page_num\<close>; the first component is true on \<open>break\<close>.\<close>

definition paged_step ::
  "(request \<Rightarrow> 'a list http_outcome) \<Rightarrow> string \<Rightarrow> int \<Rightarrow> 'a paged_state \<Rightarrow> bool \<times> 'a paged_state" where
  "paged_step transport path' page_num s =
     (let params' = (loop_params s)\<lparr>page := Some page_num\<rparr>;
          etag_sent = (if page_num = 1 then current_page_etag s else None);
          result = make_github_request transport ''GET'' path' (Some params') etag_sent;
          response = fst result;
          new_etag_for_this_page = snd result;
          s1 = s\<lparr>loop_params := params',
                 requests_sent := requests_sent s @ [github_request ''GET'' path' (Some params') etag_sent],
                 etag_to_return :=
                   (if page_num = 1
                    then (if truthy new_etag_for_this_page then new_etag_for_this_page
                          else current_page_etag s)
                    else etag_to_return s)\<rparr>
      in case response of
           None \<Rightarrow> (True, s1)
         | Some page_data \<Rightarrow>
             if page_data = [] then (True, s1)
             else
               (let s2 = s1\<lparr>all_items := all_items s1 @ page_data\<rparr> in
                if int (length page_data) < (case per_page params' of Some n \<Rightarrow> n | None \<Rightarrow> 30)
                then (True, s2)
                else (False, s2\<lparr>current_page_etag := None\<rparr>)))"

fun paged_loop ::
  "(request \<Rightarrow> 'a list http_outcome) \<Rightarrow> string \<Rightarrow> int list \<Rightarrow> 'a paged_state \<Rightarrow> 'a paged_state" where
  "paged_loop transport path' [] s = s"
| "paged_loop transport path' (page_num # rest) s =
     (let r = paged_step transport path' page_num s
      in if fst r then snd r else paged_loop transport path' rest (snd r))"

definition get_repo_list_paged_run ::
  "(request \<Rightarrow> 'a list http_outcome) \<Rightarrow> string \<Rightarrow> params \<Rightarrow> string option \<Rightarrow> int \<Rightarrow> 'a paged_state" where
  "get_repo_list_paged_run transport path' params' etag max_pages =
     paged_loop transport path' [1..max_pages]
       \<lparr>loop_params = params', all_items = [], current_page_etag = etag,
        etag_to_return = etag, requests_sent = []\<rparr>"

definition get_repo_list_paged ::
  "(request \<Rightarrow> 'a list http_outcome) \<Rightarrow> string \<Rightarrow> params \<Rightarrow> string option \<Rightarrow> int \<Rightarrow>
   'a list \<times> string option" where
  "get_repo_list_paged transport path' params' etag max_pages =
     (let s = get_repo_list_paged_run transport path' params' etag max_pages
      in (all_items s, etag_to_return s))"

text \<open>The three list fetchers; \<open>max_pages\<close> keeps its default 10.\<close>

definition get_repo_commits ::
  "(request \<Rightarrow> 'a list http_outcome) \<Rightarrow> string \<Rightarrow> string \<Rightarrow> string option \<Rightarrow> int \<Rightarrow> string option \<Rightarrow>
   'a list \<times> string option" where
  "get_repo_commits transport owner repo since' per_page' etag =
     get_repo_list_paged transport (''/repos/'' @ owner @ ''/'' @ repo @ ''/commits'')
       \<lparr>state_filter = None, per_page = Some per_page',
        since = (if truthy since' then since' else None), page = None\<rparr> etag 10"

definition get_repo_issues ::
  "(request \<Rightarrow> 'a list http_outcome) \<Rightarrow> string \<Rightarrow> string \<Rightarrow> string \<Rightarrow> string option \<Rightarrow> int \<Rightarrow>
   string option \<Rightarrow> 'a list \<times> string option" where
  "get_repo_issues transport owner repo state' since' per_page' etag =
     get_repo_list_paged transport (''/repos/'' @ owner @ ''/'' @ repo @ ''/issues'')
       \<lparr>state_filter = Some state', per_page = Some per_page',
        since = (if truthy since' then since' else None), page = None\<rparr> etag 10"

definition get_repo_pull_requests ::
  "(request \<Rightarrow> 'a list http_outcome) \<Rightarrow> string \<Rightarrow> string \<Rightarrow> string \<Rightarrow> int \<Rightarrow> string option \<Rightarrow>
   'a list \<times> string option" where
  "get_repo_pull_requests transport owner repo state' per_page' etag =
     get_repo_list_paged transport (''/repos/'' @ owner @ ''/'' @ repo @ ''/pulls'')
       \<lparr>state_filter = Some state', per_page = Some per_page', since = None, page = None\<rparr> etag 10"

section \<open>backfill.py: one backfill pass over a repository\<close>

text \<open>
  A JSON object of the GitHub API, with the fields the backfill reads: \<open>node_id\<close>, \<open>sha\<close> and
  \<open>updated_at\<close> are strings, \<open>id\<close> is an integer; \<open>None\<close> stands for an absent key. \<open>rest\<close> is
  the text of the other fields. The empty object is the one false value.
\<close>

record gh_object =
  node_id :: "string option"
  item_id :: "int option"
  sha :: "string option"
  updated_at :: "string option"
  rest :: string

definition is_empty_object :: "gh_object \<Rightarrow> bool" where
  "is_empty_object d \<longleftrightarrow>
     node_id d = None \<and> item_id d = None \<and> sha d = None \<and> updated_at d = None \<and> rest d = []"

text \<open>\<open>str(n)\<close> for an integer.\<close>

fun str_nat :: "nat \<Rightarrow> string" where
  "str_nat n =
     (if n < 10 then [''0123456789'' ! n]
      else str_nat (n div 10) @ [''0123456789'' ! (n mod 10)])"

declare str_nat.simps [simp del]

definition str_int :: "int \<Rightarrow> string" where
  "str_int i = (if i < 0 then ''-'' @ str_nat (nat (- i)) else str_nat (nat i))"

text \<open>The slice \<open>xs[:n]\<close>; a negative \<open>n\<close> counts from the end.\<close>

definition slice_to :: "int \<Rightarrow> 'a list \<Rightarrow> 'a list" where
  "slice_to n xs = (if 0 \<le> n then take (nat n) xs else take (length xs - nat (- n)) xs)"

text \<open>
  The configuration read through \<open>node.config.github\<close>, and \<open>lookback_since\<close>: the text
  \<open>(datetime.utcnow() - timedelta(days=backfill_lookback_days)).isoformat() + "Z"\<close> at the
  time of the pass.
\<close>

record config =
  backfill_max_items :: int
  backfill_lookback_days :: int
  lookback_since :: string

text \<open>
  \<open>repo_state\<close>, a \<open>Dict[str, Optional[str]]\<close> read only through \<open>get\<close>: a key with the value
  \<open>None\<close> and an absent key are the same.
\<close>

type_synonym repo_state = "string \<rightharpoonup> string"

text \<open>\<open>if v: repo_state[k] = v\<close>.\<close>

definition store_if_truthy :: "string \<Rightarrow> string option \<Rightarrow> repo_state \<Rightarrow> repo_state" where
  "store_if_truthy k v st = (if truthy v then st(k := v) else st)"

text \<open>A call \<open>node.processor.handle(bundle, event_type)\<close>, with the bundle's identity and contents.\<close>

record handled_event =
  handled_rid :: GitHubEvent
  event_source_type :: string
  event_payload :: gh_object
  handled_as :: koi_event_type

text \<open>
  What a pass (or a part of it) leaves behind: the dictionary \<open>repo_state\<close> as mutated, the
  calls to the processor in order, and the exception that ended it, if any.
\<close>

record backfill_run =
  state :: repo_state
  handled :: "handled_event list"
  raised :: "error option"

text \<open>Part 1, repository details.\<close>

definition backfill_repo_details ::
  "(request \<Rightarrow> gh_object http_outcome) \<Rightarrow> string \<Rightarrow> string \<Rightarrow> repo_state \<Rightarrow> backfill_run" where
  "backfill_repo_details transport owner repo_name repo_state =
     (let repo_full_name' = owner @ ''/'' @ repo_name;
          repo_details_etag = repo_state ''repo_details_etag'';
          fetched = get_repo_details transport owner repo_name repo_details_etag;
          repo_data = fst fetched;
          new_repo_details_etag = snd fetched;
          st1 = store_if_truthy ''repo_details_etag'' new_repo_details_etag repo_state
      in case repo_data of
           None \<Rightarrow> \<lparr>state = st1, handled = [], raised = None\<rparr>
         | Some d \<Rightarrow>
             if is_empty_object d then \<lparr>state = st1, handled = [], raised = None\<rparr>
             else
               (case GitHubEvent_init repo_full_name'
                       (''details_'' @
                          (case node_id d of
                             Some n \<Rightarrow> n
                           | None \<Rightarrow> (case item_id d of Some i \<Rightarrow> str_int i | None \<Rightarrow> ''static''))) of
                  Inl e \<Rightarrow> \<lparr>state = st1, handled = [], raised = Some e\<rparr>
                | Inr repo_event_rid \<Rightarrow>
                    \<lparr>state = st1,
                     handled = [\<lparr>handled_rid = repo_event_rid,
                                 event_source_type = ''backfill_repo_details'',
                                 event_payload = d, handled_as = UPDATE\<rparr>],
                     raised = None\<rparr>))"

text \<open>
  Part 2, commits. The loop over \<open>fetched_commits_data[:max_items]\<close>: the calls made, and the
  exception of the constructor if it raises.
\<close>

fun commits_loop :: "string \<Rightarrow> gh_object list \<Rightarrow> handled_event list \<times> error option" where
  "commits_loop repo_full_name' [] = ([], None)"
| "commits_loop repo_full_name' (commit_item # items) =
     (if truthy (sha commit_item) then
        (case GitHubEvent_init repo_full_name' (''commit_'' @ the (sha commit_item)) of
           Inl e \<Rightarrow> ([], Some e)
         | Inr commit_event_rid \<Rightarrow>
             (let r = commits_loop repo_full_name' items
              in (\<lparr>handled_rid = commit_event_rid, event_source_type = ''backfill_commit'',
                   event_payload = commit_item, handled_as = NEW\<rparr> # fst r, snd r)))
      else commits_loop repo_full_name' items)"

definition backfill_commits ::
  "config \<Rightarrow> (request \<Rightarrow> gh_object list http_outcome) \<Rightarrow> string \<Rightarrow> string \<Rightarrow> repo_state \<Rightarrow>
   backfill_run" where
  "backfill_commits cfg transport owner repo_name repo_state =
     (let repo_full_name' = owner @ ''/'' @ repo_name;
          max_items = backfill_max_items cfg;
          commits_list_etag = repo_state ''commits_list_etag'';
          fetched = get_repo_commits transport owner repo_name None max_items commits_list_etag;
          fetched_commits_data = fst fetched;
          new_commits_list_etag = snd fetched;
          st1 = store_if_truthy ''commits_list_etag'' new_commits_list_etag repo_state
      in if fetched_commits_data \<noteq> [] then
           (let r = commits_loop repo_full_name' (slice_to max_items fetched_commits_data)
            in \<lparr>state = st1, handled = fst r, raised = snd r\<rparr>)
         else \<lparr>state = st1, handled = [], raised = None\<rparr>)"

text \<open>
  Parts 3 and 4, issues and pull requests, run the same loop over the first \<open>max_items\<close>
  fetched items, with their own event id prefix and source type. Its result: the newest update
  timestamp seen (\<open>new_latest_..._ts_for_state\<close>), the calls made, and the exception of the
  constructor if it raises. Strings are compared as Python compares them.
\<close>

fun updates_loop ::
  "string \<Rightarrow> string \<Rightarrow> string \<Rightarrow> gh_object list \<Rightarrow> string option \<Rightarrow>
   string option \<times> handled_event list \<times> error option" where
  "updates_loop prefix' source_type repo_full_name' [] new_latest = (new_latest, [], None)"
| "updates_loop prefix' source_type repo_full_name' (item # items) new_latest =
     (if truthy (node_id item) then
        (case GitHubEvent_init repo_full_name' (prefix' @ the (node_id item)) of
           Inl e \<Rightarrow> (new_latest, [], Some e)
         | Inr event_rid \<Rightarrow>
             (let new_latest' =
                    (if truthy (updated_at item) \<and>
                        (case new_latest of
                           None \<Rightarrow> True
                         | Some latest \<Rightarrow> the (updated_at item) > latest)
                     then updated_at item else new_latest);
                  r = updates_loop prefix' source_type repo_full_name' items new_latest'
              in (fst r,
                  \<lparr>handled_rid = event_rid, event_source_type = source_type,
                   event_payload = item, handled_as = NEW\<rparr> # fst (snd r),
                  snd (snd r))))
      else updates_loop prefix' source_type repo_full_name' items new_latest)"

definition backfill_issues ::
  "config \<Rightarrow> (request \<Rightarrow> gh_object list http_outcome) \<Rightarrow> string \<Rightarrow> string \<Rightarrow> repo_state \<Rightarrow>
   backfill_run" where
  "backfill_issues cfg transport owner repo_name repo_state =
     (let repo_full_name' = owner @ ''/'' @ repo_name;
          max_items = backfill_max_items cfg;
          issues_list_etag = repo_state ''issues_list_etag'';
          last_processed_issue_update_ts =
            (if \<not> truthy (repo_state ''issues_last_processed_update_ts'') \<and>
                backfill_lookback_days cfg > 0
             then Some (lookback_since cfg)
             else repo_state ''issues_last_processed_update_ts'');
          fetched = get_repo_issues transport owner repo_name ''all''
                      last_processed_issue_update_ts max_items issues_list_etag;
          fetched_issues_data = fst fetched;
          new_issues_list_etag = snd fetched;
          st1 = store_if_truthy ''issues_list_etag'' new_issues_list_etag repo_state;
          new_latest_issue_ts_for_state = st1 ''issues_last_processed_update_ts''
      in if fetched_issues_data \<noteq> [] then
           (let r = updates_loop ''issue_'' ''backfill_issue'' repo_full_name'
                      (slice_to max_items fetched_issues_data) new_latest_issue_ts_for_state
            in case snd (snd r) of
                 Some e \<Rightarrow> \<lparr>state = st1, handled = fst (snd r), raised = Some e\<rparr>
               | None \<Rightarrow>
                   \<lparr>state = store_if_truthy ''issues_last_processed_update_ts'' (fst r) st1,
                    handled = fst (snd r), raised = None\<rparr>)
         else \<lparr>state = st1, handled = [], raised = None\<rparr>)"

text \<open>
  In part 4 the source also computes \<open>last_processed_pr_update_ts\<close> from the lookback window,
  and never reads it: the pull request list takes no \<open>since\<close>.
\<close>

definition backfill_pull_requests ::
  "config \<Rightarrow> (request \<Rightarrow> gh_object list http_outcome) \<Rightarrow> string \<Rightarrow> string \<Rightarrow> repo_state \<Rightarrow>
   backfill_run" where
  "backfill_pull_requests cfg transport owner repo_name repo_state =
     (let repo_full_name' = owner @ ''/'' @ repo_name;
          max_items = backfill_max_items cfg;
          prs_list_etag = repo_state ''prs_list_etag'';
          fetched = get_repo_pull_requests transport owner repo_name ''all'' max_items prs_list_etag;
          fetched_prs_data = fst fetched;
          new_prs_list_etag = snd fetched;
          st1 = store_if_truthy ''prs_list_etag'' new_prs_list_etag repo_state;
          new_latest_pr_ts_for_state = st1 ''prs_last_processed_update_ts''
      in if fetched_prs_data \<noteq> [] then
           (let r = updates_loop ''pr_'' ''backfill_pr'' repo_full_name'
                      (slice_to max_items fetched_prs_data) new_latest_pr_ts_for_state
            in case snd (snd r) of
                 Some e \<Rightarrow> \<lparr>state = st1, handled = fst (snd r), raised = Some e\<rparr>
               | None \<Rightarrow>
                   \<lparr>state = store_if_truthy ''prs_last_processed_update_ts'' (fst r) st1,
                    handled = fst (snd r), raised = None\<rparr>)
         else \<lparr>state = st1, handled = [], raised = None\<rparr>)"

text \<open>
  Sequencing: an exception ends the pass, with the state and the calls made so far; otherwise
  the next part runs on the state the previous one left.
\<close>

definition and_then :: "backfill_run \<Rightarrow> (repo_state \<Rightarrow> backfill_run) \<Rightarrow> backfill_run" where
  "and_then r next_part =
     (case raised r of
        Some e \<Rightarrow> r
      | None \<Rightarrow> (let r' = next_part (state r) in r'\<lparr>handled := handled r @ handled r'\<rparr>))"

definition backfill_repository_data ::
  "config \<Rightarrow> (request \<Rightarrow> gh_object http_outcome) \<Rightarrow> (request \<Rightarrow> gh_object list http_outcome) \<Rightarrow>
   string \<Rightarrow> string \<Rightarrow> repo_state \<Rightarrow> backfill_run" where
  "backfill_repository_data cfg details_transport list_transport owner repo_name repo_state =
     and_then
       (and_then
          (and_then
             (backfill_repo_details details_transport owner repo_name repo_state)
             (backfill_commits cfg list_transport owner repo_name))
          (backfill_issues cfg list_transport owner repo_name))
       (backfill_pull_requests cfg list_transport owner repo_name)"

section \<open>Notions used to state the claims\<close>

text \<open>
  For a paginated fetch of \<open>path'\<close> with the parameters \<open>params'\<close> and the prior \<open>etag\<close>: the
  request that asks for page \<open>k\<close>, what \<open>_make_github_request\<close> returns for it, the items the
  page contributes, and whether the loop stops at it: no response (304 or a failed request),
  an empty page, or a page shorter than the requested page size.
\<close>

definition page_request :: "string \<Rightarrow> params \<Rightarrow> string option \<Rightarrow> int \<Rightarrow> request" where
  "page_request path' params' etag k =
     github_request ''GET'' path' (Some (params'\<lparr>page := Some k\<rparr>)) (if k = 1 then etag else None)"

definition page_result ::
  "(request \<Rightarrow> 'a list http_outcome) \<Rightarrow> string \<Rightarrow> params \<Rightarrow> string option \<Rightarrow> int \<Rightarrow>
   'a list option \<times> string option" where
  "page_result transport path' params' etag k =
     make_github_request transport ''GET'' path' (Some (params'\<lparr>page := Some k\<rparr>))
       (if k = 1 then etag else None)"

definition requested_page_size :: "params \<Rightarrow> int" where
  "requested_page_size params' = (case per_page params' of Some n \<Rightarrow> n | None \<Rightarrow> 30)"

definition page_items ::
  "(request \<Rightarrow> 'a list http_outcome) \<Rightarrow> string \<Rightarrow> params \<Rightarrow> string option \<Rightarrow> int \<Rightarrow> 'a list" where
  "page_items transport path' params' etag k =
     (case fst (page_result transport path' params' etag k) of
        None \<Rightarrow> []
      | Some page_data \<Rightarrow> page_data)"

definition page_stops ::
  "(request \<Rightarrow> 'a list http_outcome) \<Rightarrow> string \<Rightarrow> params \<Rightarrow> string option \<Rightarrow> int \<Rightarrow> bool" where
  "page_stops transport path' params' etag k =
     (case fst (page_result transport path' params' etag k) of
        None \<Rightarrow> True
      | Some page_data \<Rightarrow>
          page_data = [] \<or> int (length page_data) < requested_page_size params')"

text \<open>The number of pages a paginated fetch asks for.\<close>

definition pages_fetched ::
  "(request \<Rightarrow> 'a list http_outcome) \<Rightarrow> string \<Rightarrow> params \<Rightarrow> string option \<Rightarrow> int \<Rightarrow> int" where
  "pages_fetched transport path' params' etag max_pages =
     int (length (requests_sent (get_repo_list_paged_run transport path' params' etag max_pages)))"

text \<open>
  A simulated list resource holding \<open>items\<close>: every request is answered 200 with the slice of
  the page it asks for (page 1 when it names none), under the ETag \<open>v1\<close>.
\<close>

definition simulated_resource :: "'a list \<Rightarrow> request \<Rightarrow> 'a list http_outcome" where
  "simulated_resource items req =
     (case query req of
        None \<Rightarrow> Response 200 (Some ''v1'') items
      | Some q \<Rightarrow>
          (let n = requested_page_size q;
               k = (case page q of Some k \<Rightarrow> k | None \<Rightarrow> 1)
           in Response 200 (Some ''v1'') (take (nat n) (drop (nat ((k - 1) * n)) items))))"

text \<open>
  A fetch that failed: a transport failure (timeout, connection error), or an answer with an
  HTTP error status (4xx or 5xx).
\<close>

definition fetch_failed :: "'b http_outcome \<Rightarrow> bool" where
  "fetch_failed outcome =
     (case outcome of
        RequestError \<Rightarrow> True
      | Response status_code _ _ \<Rightarrow> 400 \<le> status_code \<and> status_code < 600)"

text \<open>
  For a backfill pass started on \<open>repo_state\<close>: the \<open>since\<close> value of the issues fetch, and the
  lists the issues fetch and the pull request fetch return.
\<close>

definition issues_since :: "config \<Rightarrow> repo_state \<Rightarrow> string option" where
  "issues_since cfg repo_state =
     (if \<not> truthy (repo_state ''issues_last_processed_update_ts'') \<and> backfill_lookback_days cfg > 0
      then Some (lookback_since cfg)
      else repo_state ''issues_last_processed_update_ts'')"

definition fetched_issues ::
  "config \<Rightarrow> (request \<Rightarrow> gh_object list http_outcome) \<Rightarrow> string \<Rightarrow> string \<Rightarrow> repo_state \<Rightarrow>
   gh_object list" where
  "fetched_issues cfg transport owner repo_name repo_state =
     fst (get_repo_issues transport owner repo_name ''all'' (issues_since cfg repo_state)
            (backfill_max_items cfg) (repo_state ''issues_list_etag''))"

definition fetched_prs ::
  "config \<Rightarrow> (request \<Rightarrow> gh_object list http_outcome) \<Rightarrow> string \<Rightarrow> string \<Rightarrow> repo_state \<Rightarrow>
   gh_object list" where
  "fetched_prs cfg transport owner repo_name repo_state =
     fst (get_repo_pull_requests transport owner repo_name ''all''
            (backfill_max_items cfg) (repo_state ''prs_list_etag''))"

text \<open>
  The processed items of a fetched list: the first \<open>max_items\<close> of it that carry a true
  \<open>node_id\<close>; the \<open>updated_at\<close> values they carry; and the greatest of a prior cursor (if any)
  and such values, absent when there is neither.
\<close>

definition processed_items :: "int \<Rightarrow> gh_object list \<Rightarrow> gh_object list" where
  "processed_items max_items fetched =
     filter (\<lambda>item. truthy (node_id item)) (slice_to max_items fetched)"

definition update_stamps :: "gh_object list \<Rightarrow> string list" where
  "update_stamps items =
     concat (map (\<lambda>item. case updated_at item of
                            None \<Rightarrow> []
                          | Some u \<Rightarrow> if u \<noteq> [] then [u] else []) items)"

definition greatest_stamp :: "string option \<Rightarrow> string list \<Rightarrow> string option" where
  "greatest_stamp prior stamps =
     (let candidates = (case prior of None \<Rightarrow> [] | Some c \<Rightarrow> [c]) @ stamps
      in if candidates = [] then None else Some (Max (set candidates)))"

section \<open>Facts about splitting\<close>

lemma split_not_Nil: "split c s \<noteq> []"
  by (induction s) (auto split: list.splits)

lemma length_split: "length (split c s) = Suc (count_list s c)"
proof (induction s)
  case Nil
  show ?case by simp
next
  case (Cons x xs)
  obtain p ps where "split c xs = p # ps"
    using split_not_Nil [of c xs] by (cases "split c xs") auto
  with Cons show ?case by simp
qed

lemma one_slash_iff:
  "(CHR ''/'' \<notin> set s \<or> length (split CHR ''/'' s) \<noteq> 2) \<longleftrightarrow> count_list s CHR ''/'' \<noteq> 1"
  by (auto simp: length_split count_list_0_iff)

lemma GitHubEvent_init_eq:
  "GitHubEvent_init r e =
     (if count_list r CHR ''/'' = 1 then Inr \<lparr>repo_full_name = r, event_id = e\<rparr>
      else Inl (ValueError ''Invalid repo_full_name format''))"
  unfolding GitHubEvent_init_def one_slash_iff by simp

lemma split_max1_no_sep: "c \<notin> set s \<Longrightarrow> split_max1 c s = [s]"
proof -
  assume "c \<notin> set s"
  then have "dropWhile (\<lambda>x. x \<noteq> c) s = []"
    by auto
  then show ?thesis by (simp add: split_max1_def del: dropWhile_eq_Nil_conv)
qed

lemma split_max1_sep:
  "c \<in> set s \<Longrightarrow>
   split_max1 c s = [takeWhile (\<lambda>x. x \<noteq> c) s, tl (dropWhile (\<lambda>x. x \<noteq> c) s)]"
  by (cases "dropWhile (\<lambda>x. x \<noteq> c) s") (auto simp: split_max1_def)

lemma split_max1_append:
  assumes "c \<notin> set r"
  shows "split_max1 c (r @ c # e) = [r, e]"
proof -
  have d: "dropWhile (\<lambda>x. x \<noteq> c) (r @ c # e) = c # e"
    using assms by (subst dropWhile_append2) auto
  have t: "takeWhile (\<lambda>x. x \<noteq> c) (r @ c # e) = r"
    using assms by (subst takeWhile_append2) auto
  show ?thesis by (simp add: split_max1_def d t)
qed

lemma from_reference_eq:
  "from_reference s =
     (if CHR '':'' \<notin> set s then Inl (ValueError ''Invalid GitHubEvent reference format'')
      else if count_list (takeWhile (\<lambda>x. x \<noteq> CHR '':'') s) CHR ''/'' \<noteq> 1
      then Inl (ValueError ''Invalid repository part in GitHubEvent reference'')
      else if tl (dropWhile (\<lambda>x. x \<noteq> CHR '':'') s) = []
      then Inl (ValueError ''Event ID part cannot be empty in GitHubEvent reference'')
      else Inr \<lparr>repo_full_name = takeWhile (\<lambda>x. x \<noteq> CHR '':'') s,
                event_id = tl (dropWhile (\<lambda>x. x \<noteq> CHR '':'') s)\<rparr>)"
proof (cases "CHR '':'' \<in> set s")
  case False
  then show ?thesis by (simp add: from_reference_def split_max1_no_sep)
next
  case True
  then show ?thesis
    unfolding from_reference_def one_slash_iff
    by (simp add: split_max1_sep GitHubEvent_init_eq Let_def)
qed

lemma from_reference_of_reference:
  "CHR '':'' \<notin> set r \<Longrightarrow>
   from_reference (reference \<lparr>repo_full_name = r, event_id = e\<rparr>) =
     (if count_list r CHR ''/'' \<noteq> 1
      then Inl (ValueError ''Invalid repository part in GitHubEvent reference'')
      else if e = [] then Inl (ValueError ''Event ID part cannot be empty in GitHubEvent reference'')
      else Inr \<lparr>repo_full_name = r, event_id = e\<rparr>)"
  unfolding from_reference_def one_slash_iff
  by (simp add: reference_def split_max1_append GitHubEvent_init_eq Let_def)

section \<open>Facts about the hexadecimal digest\<close>

lemma hex_digit_in: "n < 16 \<Longrightarrow> hex_digit n \<in> set ''0123456789abcdef''"
  unfolding hex_digit_def by (rule nth_mem) simp

lemma set_hex_byte: "set (hex_byte b) \<subseteq> set ''0123456789abcdef''"
proof -
  define S where "S = set ''0123456789abcdef''"
  have d: "unat b div 16 < 16"
    using unsigned_less [of b, where 'a = nat] by (simp add: less_mult_imp_div_less)
  have m: "unat b mod 16 < 16" by simp
  have "hex_digit (unat b div 16) \<in> S"
    unfolding S_def using d by (rule hex_digit_in)
  moreover have "hex_digit (unat b mod 16) \<in> S"
    unfolding S_def using m by (rule hex_digit_in)
  ultimately have "set (hex_byte b) \<subseteq> S"
    by (simp add: hex_byte_def)
  then show ?thesis by (simp only: S_def)
qed

lemma set_hexdigest: "set (hexdigest bs) \<subseteq> set ''0123456789abcdef''"
  unfolding hexdigest_def using set_hex_byte by (induction bs) auto

lemma hexdigest_no_delete_ref: "\<not> prefix ''delete_ref_'' (take n (hexdigest bs))"
proof
  assume "prefix ''delete_ref_'' (take n (hexdigest bs))"
  then have "set ''delete_ref_'' \<subseteq> set (take n (hexdigest bs))"
    by (rule set_mono_prefix)
  then have "CHR ''l'' \<in> set (take n (hexdigest bs))" by auto
  then have "CHR ''l'' \<in> set (hexdigest bs)" by (rule in_set_takeD)
  with set_hexdigest [of bs] show False by auto
qed

section \<open>Facts about the paginated fetch\<close>

lemma paged_step_eq:
  assumes "loop_params s = params'\<lparr>page := x\<rparr>"
    and "k = 1 \<longrightarrow> current_page_etag s = etag"
  shows "paged_step transport path' k s =
    (page_stops transport path' params' etag k,
     s\<lparr>loop_params := params'\<lparr>page := Some k\<rparr>,
       requests_sent := requests_sent s @ [page_request path' params' etag k],
       etag_to_return :=
         (if k = 1
          then (if truthy (snd (page_result transport path' params' etag k))
                then snd (page_result transport path' params' etag k) else etag)
          else etag_to_return s),
       all_items := all_items s @ page_items transport path' params' etag k,
       current_page_etag :=
         (if page_stops transport path' params' etag k then current_page_etag s else None)\<rparr>)"
  using assms
  by (cases "fst (page_result transport path' params' etag k)")
     (auto simp: paged_step_def page_stops_def page_items_def page_request_def page_result_def
        requested_page_size_def Let_def)


lemma paged_loop_upto:
  assumes "1 \<le> lo" and "loop_params s = params'\<lparr>page := x\<rparr>"
    and "lo = 1 \<longrightarrow> current_page_etag s = etag"
  shows "\<exists>m. 0 \<le> m \<and> lo + m \<le> max lo (hi + 1) \<and> (lo \<le> hi \<longrightarrow> 1 \<le> m) \<and>
     requests_sent (paged_loop transport path' [lo..hi] s) =
       requests_sent s @ map (page_request path' params' etag) [lo..lo + m - 1] \<and>
     all_items (paged_loop transport path' [lo..hi] s) =
       all_items s @ concat (map (page_items transport path' params' etag) [lo..lo + m - 1]) \<and>
     (\<forall>k. lo \<le> k \<and> k < lo + m - 1 \<longrightarrow> \<not> page_stops transport path' params' etag k) \<and>
     (lo + m - 1 < hi \<longrightarrow> page_stops transport path' params' etag (lo + m - 1)) \<and>
     etag_to_return (paged_loop transport path' [lo..hi] s) =
       (if lo = 1 \<and> lo \<le> hi
        then (if truthy (snd (page_result transport path' params' etag 1))
              then snd (page_result transport path' params' etag 1) else etag)
        else etag_to_return s)"
  using assms
proof (induction lo hi arbitrary: s x rule: upto.induct)
  case (1 i j)
  let ?stops = "page_stops transport path' params' etag"
  let ?fe = "if truthy (snd (page_result transport path' params' etag 1))
              then snd (page_result transport path' params' etag 1) else etag"
  show ?case
  proof (cases "i \<le> j")
    case False
    then have "[i..j] = []" by simp
    with False show ?thesis by (intro exI [of _ 0]) auto
  next
    case True
    then have up: "[i..j] = i # [i + 1..j]" by (rule upto_rec1)
    note step = paged_step_eq [OF "1.prems"(2) "1.prems"(3), of transport path']
    show ?thesis
    proof (cases "?stops i")
      case stops: True
      have "paged_loop transport path' [i..j] s = snd (paged_step transport path' i s)"
        by (simp add: up step stops Let_def)
      then show ?thesis
        using True stops by (intro exI [of _ 1]) (auto simp: step)
    next
      case cont: False
      define s2 where "s2 = snd (paged_step transport path' i s)"
      have loop: "paged_loop transport path' [i..j] s = paged_loop transport path' [i + 1..j] s2"
        by (simp add: up step cont Let_def s2_def)
      have s2_params: "loop_params s2 = params'\<lparr>page := Some i\<rparr>"
        by (simp add: s2_def step)
      have "1 \<le> i + 1" using "1.prems"(1) by simp
      moreover have "i + 1 = 1 \<longrightarrow> current_page_etag s2 = etag"
        using "1.prems"(1) by simp
      ultimately obtain m where m: "0 \<le> m" "i + 1 + m \<le> max (i + 1) (j + 1)"
        and req: "requests_sent (paged_loop transport path' [i + 1..j] s2) =
           requests_sent s2 @ map (page_request path' params' etag) [i + 1..i + 1 + m - 1]"
        and items: "all_items (paged_loop transport path' [i + 1..j] s2) =
           all_items s2 @ concat (map (page_items transport path' params' etag) [i + 1..i + 1 + m - 1])"
        and before: "\<forall>k. i + 1 \<le> k \<and> k < i + 1 + m - 1 \<longrightarrow> \<not> ?stops k"
        and last: "i + 1 + m - 1 < j \<longrightarrow> ?stops (i + 1 + m - 1)"
        and et: "etag_to_return (paged_loop transport path' [i + 1..j] s2) =
           (if i + 1 = 1 \<and> i + 1 \<le> j then ?fe else etag_to_return s2)"
        using "1.IH" [OF True _ s2_params] by blast
      have range: "[i..i + (m + 1) - 1] = i # [i + 1..i + 1 + m - 1]"
        using m(1) upto_rec1 [of i "i + m"] by (simp add: algebra_simps)
      have i1: "i + 1 \<noteq> 1" using "1.prems"(1) by simp
      have "\<forall>k. i \<le> k \<and> k < i + (m + 1) - 1 \<longrightarrow> \<not> ?stops k"
      proof (intro allI impI)
        fix k assume k: "i \<le> k \<and> k < i + (m + 1) - 1"
        show "\<not> ?stops k"
        proof (cases "k = i")
          case True
          with cont show ?thesis by simp
        next
          case False
          with k have "i + 1 \<le> k \<and> k < i + 1 + m - 1" by simp
          with before show ?thesis by blast
        qed
      qed
      moreover have "i + (m + 1) - 1 < j \<longrightarrow> ?stops (i + (m + 1) - 1)"
        using last by (simp add: algebra_simps)
      moreover have "requests_sent (paged_loop transport path' [i..j] s) =
          requests_sent s @ map (page_request path' params' etag) [i..i + (m + 1) - 1]"
        unfolding loop req range by (simp add: s2_def step)
      moreover have "all_items (paged_loop transport path' [i..j] s) =
          all_items s @ concat (map (page_items transport path' params' etag) [i..i + (m + 1) - 1])"
        unfolding loop items range by (simp add: s2_def step)
      moreover have "etag_to_return (paged_loop transport path' [i..j] s) =
          (if i = 1 \<and> i \<le> j then ?fe else etag_to_return s)"
        unfolding loop et using i1 True by (simp add: s2_def step)
      moreover have "0 \<le> m + 1" "i + (m + 1) \<le> max i (j + 1)" "i \<le> j \<longrightarrow> 1 \<le> m + 1"
        using m True by simp_all
      ultimately show ?thesis by (intro exI [of _ "m + 1"]) blast
    qed
  qed
qed


lemma paged_run_char:
  fixes transport :: "request \<Rightarrow> 'a list http_outcome"
    and path' :: string and params' :: params and etag :: "string option" and max_pages :: int
  defines "n \<equiv> pages_fetched transport path' params' etag max_pages"
  defines "run \<equiv> get_repo_list_paged_run transport path' params' etag max_pages"
  shows "requests_sent run = map (page_request path' params' etag) [1..n]"
    and "all_items run = concat (map (page_items transport path' params' etag) [1..n])"
    and "0 \<le> n" and "n \<le> max 0 max_pages" and "1 \<le> max_pages \<Longrightarrow> 1 \<le> n"
    and "\<And>k. 1 \<le> k \<Longrightarrow> k < n \<Longrightarrow> \<not> page_stops transport path' params' etag k"
    and "n < max_pages \<Longrightarrow> page_stops transport path' params' etag n"
    and "etag_to_return run =
       (if 1 \<le> max_pages
        then (if truthy (snd (page_result transport path' params' etag 1))
              then snd (page_result transport path' params' etag 1) else etag)
        else etag)"
proof -
  let ?s0 = "\<lparr>loop_params = params', all_items = [], current_page_etag = etag,
        etag_to_return = etag, requests_sent = []\<rparr> :: 'a paged_state"
  have p: "loop_params ?s0 = params'\<lparr>page := page params'\<rparr>" by simp
  have run: "run = paged_loop transport path' [1..max_pages] ?s0"
    by (simp add: run_def get_repo_list_paged_run_def)
  obtain m where m: "0 \<le> m" "1 + m \<le> max 1 (max_pages + 1)" "1 \<le> max_pages \<longrightarrow> 1 \<le> m"
    and req: "requests_sent run = map (page_request path' params' etag) [1..1 + m - 1]"
    and items: "all_items run = concat (map (page_items transport path' params' etag) [1..1 + m - 1])"
    and before: "\<forall>k. 1 \<le> k \<and> k < 1 + m - 1 \<longrightarrow> \<not> page_stops transport path' params' etag k"
    and last: "1 + m - 1 < max_pages \<longrightarrow> page_stops transport path' params' etag (1 + m - 1)"
    and et: "etag_to_return run =
       (if (1::int) = 1 \<and> 1 \<le> max_pages
        then (if truthy (snd (page_result transport path' params' etag 1))
              then snd (page_result transport path' params' etag 1) else etag)
        else etag_to_return ?s0)"
    unfolding run
    using paged_loop_upto [where lo = 1 and s = ?s0 and params' = params' and x = "page params'"
        and etag = etag and hi = max_pages and transport = transport and path' = path', OF _ p]
    by auto
  have "n = int (length (requests_sent run))"
    by (simp add: n_def pages_fetched_def run_def)
  with req m(1) have n: "n = m" by simp
  show "requests_sent run = map (page_request path' params' etag) [1..n]"
    using req by (simp add: n)
  show "all_items run = concat (map (page_items transport path' params' etag) [1..n])"
    using items by (simp add: n)
  show "0 \<le> n" using m(1) n by simp
  show "n \<le> max 0 max_pages" using m(2) n by simp
  show "1 \<le> n" if "1 \<le> max_pages" using m(3) n that by simp
  show "\<not> page_stops transport path' params' etag k" if "1 \<le> k" "k < n" for k
    using before that n by simp
  show "page_stops transport path' params' etag n" if "n < max_pages"
    using last that n by simp
  show "etag_to_return run =
       (if 1 \<le> max_pages
        then (if truthy (snd (page_result transport path' params' etag 1))
              then snd (page_result transport path' params' etag 1) else etag)
        else etag)"
    using et by simp
qed

lemma get_repo_list_paged_eq:
  "get_repo_list_paged transport path' params' etag max_pages =
     (concat (map (page_items transport path' params' etag)
        [1..pages_fetched transport path' params' etag max_pages]),
      if 1 \<le> max_pages
      then (if truthy (snd (page_result transport path' params' etag 1))
            then snd (page_result transport path' params' etag 1) else etag)
      else etag)"
  by (simp add: get_repo_list_paged_def Let_def paged_run_char(2) paged_run_char(8))

lemma pages_fetched_eqI:
  assumes "1 \<le> n" and "n \<le> max_pages"
    and "\<And>k. 1 \<le> k \<Longrightarrow> k < n \<Longrightarrow> \<not> page_stops transport path' params' etag k"
    and "n < max_pages \<Longrightarrow> page_stops transport path' params' etag n"
  shows "pages_fetched transport path' params' etag max_pages = n"
proof -
  let ?f = "pages_fetched transport path' params' etag max_pages"
  have 1: "1 \<le> ?f" using assms(1,2) by (intro paged_run_char(5)) simp
  have 2: "?f \<le> max_pages" using paged_run_char(4) [of transport path' params' etag max_pages] assms(1,2) by simp
  show ?thesis
  proof (rule ccontr)
    assume ne: "?f \<noteq> n"
    show False
    proof (cases "?f < n")
      case True
      with assms(2) have "?f < max_pages" by simp
      then have "page_stops transport path' params' etag ?f" by (rule paged_run_char(7))
      moreover have "\<not> page_stops transport path' params' etag ?f" using 1 True by (rule assms(3))
      ultimately show False by contradiction
    next
      case False
      with ne have lt: "n < ?f" by simp
      with 2 have "n < max_pages" by simp
      then have "page_stops transport path' params' etag n" by (rule assms(4))
      moreover have "\<not> page_stops transport path' params' etag n"
        using assms(1) lt by (rule paged_run_char(6))
      ultimately show False by contradiction
    qed
  qed
qed

lemma simulated_page_result:
  "page_result (simulated_resource xs) path' params' etag k =
     (Some (take (nat (requested_page_size params'))
        (drop (nat ((k - 1) * requested_page_size params')) xs)), Some ''v1'')"
  by (simp add: page_result_def make_github_request_def simulated_resource_def github_request_def
      raise_for_status_def requested_page_size_def Let_def)

lemma simulated_125:
  assumes len: "length xs = 125" and pp: "per_page params' = Some 50"
  shows "pages_fetched (simulated_resource xs) path' params' etag 10 = 3"
    and "get_repo_list_paged (simulated_resource xs) path' params' etag 10 = (xs, Some ''v1'')"
proof -
  have size: "requested_page_size params' = 50" by (simp add: requested_page_size_def pp)
  have items: "page_items (simulated_resource xs) path' params' etag k =
      take 50 (drop (nat ((k - 1) * 50)) xs)" for k
    by (simp add: page_items_def simulated_page_result size)
  have stops: "page_stops (simulated_resource xs) path' params' etag k \<longleftrightarrow>
      length (take 50 (drop (nat ((k - 1) * 50)) xs)) < 50" for k
    by (auto simp: page_stops_def simulated_page_result size)
  show n: "pages_fetched (simulated_resource xs) path' params' etag 10 = 3"
  proof (rule pages_fetched_eqI)
    fix k :: int assume "1 \<le> k" "k < 3"
    then have "k = 1 \<or> k = 2" by auto
    then show "\<not> page_stops (simulated_resource xs) path' params' etag k"
      by (auto simp: stops len)
  next
    show "page_stops (simulated_resource xs) path' params' etag 3"
      by (simp add: stops len)
  qed simp_all
  have "take 50 xs @ take 50 (drop 50 xs) @ take 50 (drop 100 xs) = xs"
  proof -
    have a: "take 50 (drop 100 xs) = drop 100 xs" by (simp add: len)
    have b: "take 50 xs @ take 50 (drop 50 xs) = take 100 xs"
      using take_add [of 50 50 xs] by simp
    have "take 50 xs @ take 50 (drop 50 xs) @ take 50 (drop 100 xs) =
        (take 50 xs @ take 50 (drop 50 xs)) @ drop 100 xs"
      by (simp only: a append_assoc)
    also have "\<dots> = take 100 xs @ drop 100 xs" by (simp only: b)
    also have "\<dots> = xs" by (rule append_take_drop_id)
    finally show ?thesis .
  qed
  moreover have "[1..3] = [1, 2, 3::int]"
    by (simp add: upto_rec1 [of 1 3])
  ultimately show "get_repo_list_paged (simulated_resource xs) path' params' etag 10 = (xs, Some ''v1'')"
    by (simp add: get_repo_list_paged_eq n items simulated_page_result)
qed

section \<open>Facts about a 304 answer\<close>

lemma make_github_request_304:
  "transport (github_request method' path' params' etag) = Response 304 h b \<Longrightarrow>
   make_github_request transport method' path' params' etag = (None, etag)"
  by (simp add: make_github_request_def)

lemma page_result_304:
  "transport (page_request path' params' etag k) = Response 304 h b \<Longrightarrow>
   page_result transport path' params' etag k = (None, if k = 1 then etag else None)"
  by (simp add: page_result_def page_request_def make_github_request_304)

lemma stops_at_first_page:
  assumes "1 \<le> max_pages" and "fst (page_result transport path' params' etag 1) = None"
  shows "pages_fetched transport path' params' etag max_pages = 1"
  using assms by (intro pages_fetched_eqI) (simp_all add: page_stops_def)

lemma get_repo_list_paged_no_first_response:
  assumes "1 \<le> max_pages" and "fst (page_result transport path' params' etag 1) = None"
  shows "get_repo_list_paged transport path' params' etag max_pages =
     ([], if truthy (snd (page_result transport path' params' etag 1))
          then snd (page_result transport path' params' etag 1) else etag)"
  using assms
  by (simp add: get_repo_list_paged_eq stops_at_first_page page_items_def)

lemma get_repo_list_paged_304:
  assumes "1 \<le> max_pages"
    and "transport (page_request path' params' etag 1) = Response 304 h b"
  shows "get_repo_list_paged transport path' params' etag max_pages = ([], etag)"
  using assms
  by (simp add: get_repo_list_paged_no_first_response page_result_304)

lemma store_if_truthy_same: "st k = v \<Longrightarrow> store_if_truthy k v st = st"
  by (auto simp: store_if_truthy_def)

lemma store_if_truthy_other: "k' \<noteq> k \<Longrightarrow> store_if_truthy k v st k' = st k'"
  by (simp add: store_if_truthy_def)

lemma backfill_issues_not_modified:
  assumes "repo_state ''issues_list_etag'' = Some e"
    and "\<And>req. path req = ''/repos/'' @ owner @ ''/'' @ repo_name @ ''/issues'' \<Longrightarrow>
           if_none_match req = Some e \<Longrightarrow> \<exists>h b. transport req = Response 304 h b"
    and "e \<noteq> []"
  shows "backfill_issues cfg transport owner repo_name repo_state =
           \<lparr>state = repo_state, handled = [], raised = None\<rparr>"
proof -
  let ?params = "\<lparr>state_filter = Some ''all'', per_page = Some (backfill_max_items cfg),
        since = (if truthy (issues_since cfg repo_state) then issues_since cfg repo_state else None),
        page = None\<rparr>"
  let ?path = "''/repos/'' @ owner @ ''/'' @ repo_name @ ''/issues''"
  obtain h b where "transport (page_request ?path ?params (Some e) 1) = Response 304 h b"
    using assms(2) [of "page_request ?path ?params (Some e) 1"] assms(3)
    by (auto simp: page_request_def github_request_def)
  then have "get_repo_list_paged transport ?path ?params (Some e) 10 = ([], Some e)"
    by (intro get_repo_list_paged_304) simp_all
  then have "get_repo_issues transport owner repo_name ''all'' (issues_since cfg repo_state)
      (backfill_max_items cfg) (Some e) = ([], Some e)"
    by (simp add: get_repo_issues_def)
  then show ?thesis
    using assms(1)
    by (simp add: backfill_issues_def issues_since_def [symmetric] Let_def store_if_truthy_same)
qed

lemma backfill_pull_requests_not_modified:
  assumes "repo_state ''prs_list_etag'' = Some e"
    and "\<And>req. path req = ''/repos/'' @ owner @ ''/'' @ repo_name @ ''/pulls'' \<Longrightarrow>
           if_none_match req = Some e \<Longrightarrow> \<exists>h b. transport req = Response 304 h b"
    and "e \<noteq> []"
  shows "backfill_pull_requests cfg transport owner repo_name repo_state =
           \<lparr>state = repo_state, handled = [], raised = None\<rparr>"
proof -
  let ?params = "\<lparr>state_filter = Some ''all'', per_page = Some (backfill_max_items cfg),
        since = None, page = None\<rparr>"
  let ?path = "''/repos/'' @ owner @ ''/'' @ repo_name @ ''/pulls''"
  obtain h b where "transport (page_request ?path ?params (Some e) 1) = Response 304 h b"
    using assms(2) [of "page_request ?path ?params (Some e) 1"] assms(3)
    by (auto simp: page_request_def github_request_def)
  then have "get_repo_list_paged transport ?path ?params (Some e) 10 = ([], Some e)"
    by (intro get_repo_list_paged_304) simp_all
  then have "get_repo_pull_requests transport owner repo_name ''all''
      (backfill_max_items cfg) (Some e) = ([], Some e)"
    by (simp add: get_repo_pull_requests_def)
  then show ?thesis
    using assms(1)
    by (simp add: backfill_pull_requests_def Let_def store_if_truthy_same)
qed

section \<open>Facts about the parts of a backfill pass\<close>

lemma state_and_then:
  "state (and_then r f) = (case raised r of Some e \<Rightarrow> state r | None \<Rightarrow> state (f (state r)))"
  by (simp add: and_then_def Let_def split: option.splits)

lemma raised_and_then:
  "raised (and_then r f) = (case raised r of Some e \<Rightarrow> Some e | None \<Rightarrow> raised (f (state r)))"
  by (simp add: and_then_def Let_def split: option.splits)

lemma state_backfill_repo_details:
  "k \<noteq> ''repo_details_etag'' \<Longrightarrow>
   state (backfill_repo_details transport owner repo_name repo_state) k = repo_state k"
  by (simp add: backfill_repo_details_def Let_def store_if_truthy_other
      split: option.splits sum.splits)

lemma state_backfill_commits:
  "k \<noteq> ''commits_list_etag'' \<Longrightarrow>
   state (backfill_commits cfg transport owner repo_name repo_state) k = repo_state k"
  by (simp add: backfill_commits_def Let_def store_if_truthy_other)

lemma state_backfill_issues:
  "k \<noteq> ''issues_list_etag'' \<Longrightarrow> k \<noteq> ''issues_last_processed_update_ts'' \<Longrightarrow>
   state (backfill_issues cfg transport owner repo_name repo_state) k = repo_state k"
  by (simp add: backfill_issues_def Let_def store_if_truthy_other split: option.splits)

lemma state_backfill_pull_requests:
  "k \<noteq> ''prs_list_etag'' \<Longrightarrow> k \<noteq> ''prs_last_processed_update_ts'' \<Longrightarrow>
   state (backfill_pull_requests cfg transport owner repo_name repo_state) k = repo_state k"
  by (simp add: backfill_pull_requests_def Let_def store_if_truthy_other split: option.splits)

text \<open>The state after parts 1 and 2, and after parts 1 to 3.\<close>

lemma state_after_commits:
  assumes "k \<noteq> ''repo_details_etag''" and "k \<noteq> ''commits_list_etag''"
  shows "state (and_then (backfill_repo_details dt owner repo_name repo_state)
           (backfill_commits cfg lt owner repo_name)) k = repo_state k"
  using assms
  by (simp add: state_and_then state_backfill_repo_details state_backfill_commits
      split: option.splits)

lemma state_after_issues:
  assumes "k \<noteq> ''repo_details_etag''" and "k \<noteq> ''commits_list_etag''"
    and "k \<noteq> ''issues_list_etag''" and "k \<noteq> ''issues_last_processed_update_ts''"
  shows "state (and_then (and_then (backfill_repo_details dt owner repo_name repo_state)
           (backfill_commits cfg lt owner repo_name)) (backfill_issues cfg lt owner repo_name)) k =
         repo_state k"
  using assms
  by (simp add: state_and_then [of _ "backfill_issues cfg lt owner repo_name"]
      state_after_commits state_backfill_issues split: option.splits)

lemma issues_key_of_pass:
  assumes "k = ''issues_list_etag'' \<or> k = ''issues_last_processed_update_ts''"
  shows "state (backfill_repository_data cfg dt lt owner repo_name repo_state) k =
     (let r12 = and_then (backfill_repo_details dt owner repo_name repo_state)
                  (backfill_commits cfg lt owner repo_name)
      in case raised r12 of
           Some e \<Rightarrow> repo_state k
         | None \<Rightarrow> state (backfill_issues cfg lt owner repo_name (state r12)) k)"
proof -
  let ?r12 = "and_then (backfill_repo_details dt owner repo_name repo_state)
                  (backfill_commits cfg lt owner repo_name)"
  let ?r123 = "and_then ?r12 (backfill_issues cfg lt owner repo_name)"
  have k: "k \<noteq> ''prs_list_etag''" "k \<noteq> ''prs_last_processed_update_ts''"
    "k \<noteq> ''repo_details_etag''" "k \<noteq> ''commits_list_etag''"
    using assms by auto
  have "state (backfill_repository_data cfg dt lt owner repo_name repo_state) k = state ?r123 k"
    by (simp add: backfill_repository_data_def
        state_and_then [of _ "backfill_pull_requests cfg lt owner repo_name"]
        state_backfill_pull_requests k split: option.splits)
  also have "\<dots> = (case raised ?r12 of
           Some e \<Rightarrow> repo_state k
         | None \<Rightarrow> state (backfill_issues cfg lt owner repo_name (state ?r12)) k)"
    by (simp add: state_and_then [of _ "backfill_issues cfg lt owner repo_name"]
        state_after_commits k split: option.splits)
  finally show ?thesis by (simp add: Let_def)
qed

lemma prs_key_of_pass:
  assumes "k = ''prs_list_etag'' \<or> k = ''prs_last_processed_update_ts''"
  shows "state (backfill_repository_data cfg dt lt owner repo_name repo_state) k =
     (let r123 = and_then (and_then (backfill_repo_details dt owner repo_name repo_state)
                   (backfill_commits cfg lt owner repo_name))
                   (backfill_issues cfg lt owner repo_name)
      in case raised r123 of
           Some e \<Rightarrow> repo_state k
         | None \<Rightarrow> state (backfill_pull_requests cfg lt owner repo_name (state r123)) k)"
proof -
  have k: "k \<noteq> ''issues_list_etag''" "k \<noteq> ''issues_last_processed_update_ts''"
    "k \<noteq> ''repo_details_etag''" "k \<noteq> ''commits_list_etag''"
    using assms by auto
  show ?thesis
    by (simp add: backfill_repository_data_def
        state_and_then [of _ "backfill_pull_requests cfg lt owner repo_name"]
        state_after_issues k Let_def split: option.splits)
qed

lemma get_repo_issues_304:
  assumes "\<And>req. path req = ''/repos/'' @ owner @ ''/'' @ repo_name @ ''/issues'' \<Longrightarrow>
           if_none_match req = Some e \<Longrightarrow> \<exists>h b. transport req = Response 304 h b"
    and "e \<noteq> []"
  shows "get_repo_issues transport owner repo_name state' since' per_page' (Some e) = ([], Some e)"
proof -
  let ?params = "\<lparr>state_filter = Some state', per_page = Some per_page',
        since = (if truthy since' then since' else None), page = None\<rparr>"
  let ?path = "''/repos/'' @ owner @ ''/'' @ repo_name @ ''/issues''"
  obtain h b where "transport (page_request ?path ?params (Some e) 1) = Response 304 h b"
    using assms(1) [of "page_request ?path ?params (Some e) 1"] assms(2)
    by (auto simp: page_request_def github_request_def)
  then have "get_repo_list_paged transport ?path ?params (Some e) 10 = ([], Some e)"
    by (intro get_repo_list_paged_304) simp_all
  then show ?thesis by (simp add: get_repo_issues_def)
qed

lemma get_repo_pull_requests_304:
  assumes "\<And>req. path req = ''/repos/'' @ owner @ ''/'' @ repo_name @ ''/pulls'' \<Longrightarrow>
           if_none_match req = Some e \<Longrightarrow> \<exists>h b. transport req = Response 304 h b"
    and "e \<noteq> []"
  shows "get_repo_pull_requests transport owner repo_name state' per_page' (Some e) = ([], Some e)"
proof -
  let ?params = "\<lparr>state_filter = Some state', per_page = Some per_page',
        since = None, page = None\<rparr>"
  let ?path = "''/repos/'' @ owner @ ''/'' @ repo_name @ ''/pulls''"
  obtain h b where "transport (page_request ?path ?params (Some e) 1) = Response 304 h b"
    using assms(1) [of "page_request ?path ?params (Some e) 1"] assms(2)
    by (auto simp: page_request_def github_request_def)
  then have "get_repo_list_paged transport ?path ?params (Some e) 10 = ([], Some e)"
    by (intro get_repo_list_paged_304) simp_all
  then show ?thesis by (simp add: get_repo_pull_requests_def)
qed

lemma make_github_request_failed:
  "fetch_failed (transport (github_request method' path' params' etag)) \<Longrightarrow>
   fst (make_github_request transport method' path' params' etag) = None"
  by (auto simp: fetch_failed_def make_github_request_def raise_for_status_def
      split: http_outcome.splits)

lemma make_github_request_RequestError:
  "transport (github_request method' path' params' etag) = RequestError \<Longrightarrow>
   make_github_request transport method' path' params' etag = (None, None)"
  by (simp add: make_github_request_def)

lemma page_result_failed:
  "fetch_failed (transport (page_request path' params' etag k)) \<Longrightarrow>
   fst (page_result transport path' params' etag k) = None"
  unfolding page_request_def page_result_def by (rule make_github_request_failed)

lemma stops_without_response:
  "fst (page_result transport path' params' etag k) = None \<Longrightarrow>
   page_stops transport path' params' etag k \<and> page_items transport path' params' etag k = []"
  by (simp add: page_stops_def page_items_def)

lemma get_repo_list_paged_failed_page:
  assumes "1 \<le> k" and "k \<le> max_pages"
    and "fst (page_result transport path' params' etag k) = None"
    and "\<And>j. 1 \<le> j \<Longrightarrow> j < k \<Longrightarrow> \<not> page_stops transport path' params' etag j"
  shows "pages_fetched transport path' params' etag max_pages = k"
    and "get_repo_list_paged transport path' params' etag max_pages =
      (concat (map (page_items transport path' params' etag) [1..k - 1]),
       if truthy (snd (page_result transport path' params' etag 1))
       then snd (page_result transport path' params' etag 1) else etag)"
proof -
  show n: "pages_fetched transport path' params' etag max_pages = k"
    using assms by (intro pages_fetched_eqI) (simp_all add: stops_without_response)
  have "[1..k] = [1..k - 1] @ [k]" using assms(1) by (rule upto_rec2)
  then show "get_repo_list_paged transport path' params' etag max_pages =
      (concat (map (page_items transport path' params' etag) [1..k - 1]),
       if truthy (snd (page_result transport path' params' etag 1))
       then snd (page_result transport path' params' etag 1) else etag)"
    using assms(1,2) by (simp add: get_repo_list_paged_eq n stops_without_response [OF assms(3)])
qed

section \<open>Facts about the update cursor\<close>

lemma valid_full_name:
  "CHR ''/'' \<notin> set owner \<Longrightarrow> CHR ''/'' \<notin> set repo_name \<Longrightarrow>
   count_list (owner @ ''/'' @ repo_name) CHR ''/'' = 1"
  by (simp add: count_list_0_iff)

lemma greatest_stamp_Nil: "greatest_stamp prior [] = prior"
  by (cases prior) (simp_all add: greatest_stamp_def)

lemma greatest_stamp_Cons:
  "greatest_stamp prior (u # us) =
     greatest_stamp (Some (case prior of None \<Rightarrow> u | Some c \<Rightarrow> max c u)) us"
  by (cases prior; cases "us = []") (auto simp: greatest_stamp_def Let_def max.assoc [symmetric])

lemma update_stamps_Cons:
  "update_stamps (item # items) =
     (case updated_at item of None \<Rightarrow> [] | Some u \<Rightarrow> if u \<noteq> [] then [u] else []) @
     update_stamps items"
  by (simp add: update_stamps_def)

lemma update_stamps_nonempty: "u \<in> set (update_stamps items) \<Longrightarrow> u \<noteq> []"
  by (auto simp: update_stamps_def split: option.splits if_splits)

lemma updates_loop_valid:
  assumes "count_list rfn CHR ''/'' = 1"
  shows "fst (updates_loop prefix' source_type rfn items latest) =
           greatest_stamp latest (update_stamps (filter (\<lambda>item. truthy (node_id item)) items)) \<and>
         snd (snd (updates_loop prefix' source_type rfn items latest)) = None"
proof (induction items arbitrary: latest)
  case Nil
  show ?case by (simp add: update_stamps_def greatest_stamp_Nil)
next
  case (Cons item items)
  show ?case
  proof (cases "truthy (node_id item)")
    case False
    with Cons show ?thesis by simp
  next
    case True
    let ?latest' = "if truthy (updated_at item) \<and>
                        (case latest of None \<Rightarrow> True
                         | Some l \<Rightarrow> the (updated_at item) > l)
                     then updated_at item else latest"
    have step: "greatest_stamp ?latest' stamps =
        greatest_stamp latest
          ((case updated_at item of None \<Rightarrow> [] | Some u \<Rightarrow> if u \<noteq> [] then [u] else []) @ stamps)"
      for stamps
      by (cases "updated_at item"; cases latest)
        (auto simp: greatest_stamp_Cons max_def)
    show ?thesis
      using True assms Cons [of ?latest']
      by (simp add: GitHubEvent_init_eq Let_def update_stamps_Cons step del: truthy.simps)
  qed
qed

lemma commits_loop_valid:
  assumes "count_list rfn CHR ''/'' = 1"
  shows "snd (commits_loop rfn items) = None"
  using assms by (induction items) (simp_all add: GitHubEvent_init_eq Let_def)

lemma store_greatest_stamp:
  assumes "\<And>u. u \<in> set stamps \<Longrightarrow> u \<noteq> []" and "st k = prior"
  shows "store_if_truthy k (greatest_stamp prior stamps) st k = greatest_stamp prior stamps"
proof (cases "truthy (greatest_stamp prior stamps)")
  case True
  then show ?thesis by (simp add: store_if_truthy_def)
next
  case False
  have "greatest_stamp prior stamps = prior"
  proof (cases "(case prior of None \<Rightarrow> [] | Some c \<Rightarrow> [c]) @ stamps = []")
    case True
    then show ?thesis by (cases prior) (simp_all add: greatest_stamp_def)
  next
    case ne: False
    let ?cs = "(case prior of None \<Rightarrow> [] | Some c \<Rightarrow> [c]) @ stamps"
    have gs: "greatest_stamp prior stamps = Some (Max (set ?cs))"
      unfolding greatest_stamp_def Let_def using ne by (simp only: if_False)
    from False have m: "Max (set ?cs) = []"
      unfolding gs by simp
    have "c \<le> Max (set ?cs)" if "c \<in> set ?cs" for c
      using Max_ge [OF finite_set that] .
    with m have all: "c = []" if "c \<in> set ?cs" for c
      using that by fastforce
    have "stamps = []"
    proof (cases stamps)
      case (Cons u us)
      then have "u \<in> set stamps" by simp
      with assms(1) [of u] all [of u] show ?thesis by simp
    qed simp
    with all [of "the prior"] show ?thesis
      by (cases prior) (simp_all add: greatest_stamp_def)
  qed
  with assms(2) False show ?thesis by (simp add: store_if_truthy_def)
qed

lemma backfill_issues_valid:
  assumes "CHR ''/'' \<notin> set owner" and "CHR ''/'' \<notin> set repo_name"
  shows "raised (backfill_issues cfg transport owner repo_name repo_state) = None"
    and "state (backfill_issues cfg transport owner repo_name repo_state)
           ''issues_last_processed_update_ts'' =
         (if fetched_issues cfg transport owner repo_name repo_state = []
          then repo_state ''issues_last_processed_update_ts''
          else greatest_stamp (repo_state ''issues_last_processed_update_ts'')
                 (update_stamps (processed_items (backfill_max_items cfg)
                    (fetched_issues cfg transport owner repo_name repo_state))))"
proof -
  let ?rfn = "owner @ ''/'' @ repo_name"
  let ?k = "''issues_last_processed_update_ts''"
  let ?fetched = "fetched_issues cfg transport owner repo_name repo_state"
  let ?st1 = "store_if_truthy ''issues_list_etag''
      (snd (get_repo_issues transport owner repo_name ''all'' (issues_since cfg repo_state)
              (backfill_max_items cfg) (repo_state ''issues_list_etag''))) repo_state"
  let ?r = "updates_loop ''issue_'' ''backfill_issue'' ?rfn
      (slice_to (backfill_max_items cfg) ?fetched) (repo_state ?k)"
  have prior: "?st1 ?k = repo_state ?k" by (simp add: store_if_truthy_other)
  have loop: "fst ?r = greatest_stamp (repo_state ?k)
        (update_stamps (processed_items (backfill_max_items cfg) ?fetched))"
      "snd (snd ?r) = None"
    using updates_loop_valid [OF valid_full_name [OF assms], of "''issue_''" "''backfill_issue''"
        "slice_to (backfill_max_items cfg) ?fetched" "repo_state ?k"]
    by (simp_all add: processed_items_def)
  have run: "backfill_issues cfg transport owner repo_name repo_state =
      (if ?fetched \<noteq> []
       then \<lparr>state = store_if_truthy ?k (fst ?r) ?st1, handled = fst (snd ?r), raised = None\<rparr>
       else \<lparr>state = ?st1, handled = [], raised = None\<rparr>)"
    unfolding backfill_issues_def Let_def issues_since_def [symmetric] fetched_issues_def [symmetric]
    using loop(2) unfolding fetched_issues_def by (simp add: prior)
  show "raised (backfill_issues cfg transport owner repo_name repo_state) = None"
    by (simp add: run)
  have stored: "store_if_truthy ?k (fst ?r) ?st1 ?k = fst ?r"
    unfolding loop(1) using prior
    by (intro store_greatest_stamp) (auto dest: update_stamps_nonempty)
  show "state (backfill_issues cfg transport owner repo_name repo_state) ?k =
         (if ?fetched = [] then repo_state ?k
          else greatest_stamp (repo_state ?k)
                 (update_stamps (processed_items (backfill_max_items cfg) ?fetched)))"
  proof (cases "?fetched = []")
    case True
    then show ?thesis by (simp add: run prior)
  next
    case False
    then have "state (backfill_issues cfg transport owner repo_name repo_state) ?k =
        store_if_truthy ?k (fst ?r) ?st1 ?k"
      by (simp add: run)
    also have "\<dots> = fst ?r" by (rule stored)
    also have "\<dots> = greatest_stamp (repo_state ?k)
        (update_stamps (processed_items (backfill_max_items cfg) ?fetched))"
      by (rule loop(1))
    finally show ?thesis using False by simp
  qed
qed

lemma backfill_pull_requests_valid:
  assumes "CHR ''/'' \<notin> set owner" and "CHR ''/'' \<notin> set repo_name"
  shows "raised (backfill_pull_requests cfg transport owner repo_name repo_state) = None"
    and "state (backfill_pull_requests cfg transport owner repo_name repo_state)
           ''prs_last_processed_update_ts'' =
         (if fetched_prs cfg transport owner repo_name repo_state = []
          then repo_state ''prs_last_processed_update_ts''
          else greatest_stamp (repo_state ''prs_last_processed_update_ts'')
                 (update_stamps (processed_items (backfill_max_items cfg)
                    (fetched_prs cfg transport owner repo_name repo_state))))"
proof -
  let ?rfn = "owner @ ''/'' @ repo_name"
  let ?k = "''prs_last_processed_update_ts''"
  let ?fetched = "fetched_prs cfg transport owner repo_name repo_state"
  let ?st1 = "store_if_truthy ''prs_list_etag''
      (snd (get_repo_pull_requests transport owner repo_name ''all''
              (backfill_max_items cfg) (repo_state ''prs_list_etag''))) repo_state"
  let ?r = "updates_loop ''pr_'' ''backfill_pr'' ?rfn
      (slice_to (backfill_max_items cfg) ?fetched) (repo_state ?k)"
  have prior: "?st1 ?k = repo_state ?k" by (simp add: store_if_truthy_other)
  have loop: "fst ?r = greatest_stamp (repo_state ?k)
        (update_stamps (processed_items (backfill_max_items cfg) ?fetched))"
      "snd (snd ?r) = None"
    using updates_loop_valid [OF valid_full_name [OF assms], of "''pr_''" "''backfill_pr''"
        "slice_to (backfill_max_items cfg) ?fetched" "repo_state ?k"]
    by (simp_all add: processed_items_def)
  have run: "backfill_pull_requests cfg transport owner repo_name repo_state =
      (if ?fetched \<noteq> []
       then \<lparr>state = store_if_truthy ?k (fst ?r) ?st1, handled = fst (snd ?r), raised = None\<rparr>
       else \<lparr>state = ?st1, handled = [], raised = None\<rparr>)"
    unfolding backfill_pull_requests_def Let_def fetched_prs_def [symmetric]
    using loop(2) unfolding fetched_prs_def by (simp add: prior)
  show "raised (backfill_pull_requests cfg transport owner repo_name repo_state) = None"
    by (simp add: run)
  have stored: "store_if_truthy ?k (fst ?r) ?st1 ?k = fst ?r"
    unfolding loop(1) using prior
    by (intro store_greatest_stamp) (auto dest: update_stamps_nonempty)
  show "state (backfill_pull_requests cfg transport owner repo_name repo_state) ?k =
         (if ?fetched = [] then repo_state ?k
          else greatest_stamp (repo_state ?k)
                 (update_stamps (processed_items (backfill_max_items cfg) ?fetched)))"
  proof (cases "?fetched = []")
    case True
    then show ?thesis by (simp add: run prior)
  next
    case False
    then have "state (backfill_pull_requests cfg transport owner repo_name repo_state) ?k =
        store_if_truthy ?k (fst ?r) ?st1 ?k"
      by (simp add: run)
    also have "\<dots> = fst ?r" by (rule stored)
    also have "\<dots> = greatest_stamp (repo_state ?k)
        (update_stamps (processed_items (backfill_max_items cfg) ?fetched))"
      by (rule loop(1))
    finally show ?thesis using False by simp
  qed
qed


lemma raised_backfill_repo_details:
  assumes "CHR ''/'' \<notin> set owner" and "CHR ''/'' \<notin> set repo_name"
  shows "raised (backfill_repo_details transport owner repo_name repo_state) = None"
  using valid_full_name [OF assms]
  by (simp add: backfill_repo_details_def Let_def GitHubEvent_init_eq split: option.splits)

lemma raised_backfill_commits:
  assumes "CHR ''/'' \<notin> set owner" and "CHR ''/'' \<notin> set repo_name"
  shows "raised (backfill_commits cfg transport owner repo_name repo_state) = None"
  using commits_loop_valid [OF valid_full_name [OF assms]]
  by (simp add: backfill_commits_def Let_def)

lemma fetched_issues_cong:
  assumes "st ''issues_list_etag'' = st' ''issues_list_etag''"
    and "st ''issues_last_processed_update_ts'' = st' ''issues_last_processed_update_ts''"
  shows "fetched_issues cfg transport owner repo_name st =
         fetched_issues cfg transport owner repo_name st'"
  using assms by (simp add: fetched_issues_def issues_since_def)

lemma fetched_prs_cong:
  assumes "st ''prs_list_etag'' = st' ''prs_list_etag''"
  shows "fetched_prs cfg transport owner repo_name st = fetched_prs cfg transport owner repo_name st'"
  using assms by (simp add: fetched_prs_def)

lemma pass_valid:
  assumes "CHR ''/'' \<notin> set owner" and "CHR ''/'' \<notin> set repo_name"
  shows "raised (backfill_repository_data cfg dt lt owner repo_name repo_state) = None"
    and "state (backfill_repository_data cfg dt lt owner repo_name repo_state)
           ''issues_last_processed_update_ts'' =
         (if fetched_issues cfg lt owner repo_name repo_state = []
          then repo_state ''issues_last_processed_update_ts''
          else greatest_stamp (repo_state ''issues_last_processed_update_ts'')
                 (update_stamps (processed_items (backfill_max_items cfg)
                    (fetched_issues cfg lt owner repo_name repo_state))))"
    and "state (backfill_repository_data cfg dt lt owner repo_name repo_state)
           ''prs_last_processed_update_ts'' =
         (if fetched_prs cfg lt owner repo_name repo_state = []
          then repo_state ''prs_last_processed_update_ts''
          else greatest_stamp (repo_state ''prs_last_processed_update_ts'')
                 (update_stamps (processed_items (backfill_max_items cfg)
                    (fetched_prs cfg lt owner repo_name repo_state))))"
proof -
  let ?r12 = "and_then (backfill_repo_details dt owner repo_name repo_state)
                  (backfill_commits cfg lt owner repo_name)"
  let ?r123 = "and_then ?r12 (backfill_issues cfg lt owner repo_name)"
  have r12: "raised ?r12 = None"
    by (simp add: raised_and_then raised_backfill_repo_details [OF assms]
        raised_backfill_commits [OF assms])
  have r123: "raised ?r123 = None"
    by (simp add: raised_and_then [of _ "backfill_issues cfg lt owner repo_name"] r12
        backfill_issues_valid(1) [OF assms])
  show "raised (backfill_repository_data cfg dt lt owner repo_name repo_state) = None"
    by (simp add: backfill_repository_data_def
        raised_and_then [of _ "backfill_pull_requests cfg lt owner repo_name"] r123
        backfill_pull_requests_valid(1) [OF assms])
  have fi: "fetched_issues cfg lt owner repo_name (state ?r12) =
      fetched_issues cfg lt owner repo_name repo_state"
    by (intro fetched_issues_cong) (simp_all add: state_after_commits)
  show "state (backfill_repository_data cfg dt lt owner repo_name repo_state)
           ''issues_last_processed_update_ts'' =
         (if fetched_issues cfg lt owner repo_name repo_state = []
          then repo_state ''issues_last_processed_update_ts''
          else greatest_stamp (repo_state ''issues_last_processed_update_ts'')
                 (update_stamps (processed_items (backfill_max_items cfg)
                    (fetched_issues cfg lt owner repo_name repo_state))))"
    by (simp add: issues_key_of_pass Let_def r12 backfill_issues_valid(2) [OF assms] fi
        state_after_commits)
  have fp: "fetched_prs cfg lt owner repo_name (state ?r123) =
      fetched_prs cfg lt owner repo_name repo_state"
    by (intro fetched_prs_cong) (simp add: state_after_issues)
  show "state (backfill_repository_data cfg dt lt owner repo_name repo_state)
           ''prs_last_processed_update_ts'' =
         (if fetched_prs cfg lt owner repo_name repo_state = []
          then repo_state ''prs_last_processed_update_ts''
          else greatest_stamp (repo_state ''prs_last_processed_update_ts'')
                 (update_stamps (processed_items (backfill_max_items cfg)
                    (fetched_prs cfg lt owner repo_name repo_state))))"
    by (simp add: prs_key_of_pass Let_def r123 backfill_pull_requests_valid(2) [OF assms] fp
        state_after_issues)
qed

lemma greatest_stamp_ge:
  "prior = Some c \<Longrightarrow> \<exists>c'. greatest_stamp prior stamps = Some c' \<and> c \<le> c'"
  by (simp add: greatest_stamp_def)

lemma greatest_stamp_is_Max:
  assumes "stamps \<noteq> []" and "\<And>c. prior = Some c \<Longrightarrow> c \<le> Max (set stamps)"
  shows "greatest_stamp prior stamps = Some (Max (set stamps))"
proof (cases prior)
  case None
  with assms(1) show ?thesis by (simp add: greatest_stamp_def)
next
  case (Some c)
  have "Max (insert c (set stamps)) = max c (Max (set stamps))"
    using assms(1) by (intro Max_insert) simp_all
  with assms(2) [OF Some] Some assms(1) show ?thesis
    by (simp add: greatest_stamp_def max_def)
qed

lemma upto_1_10: "[1..10] = 1 # [2..10]"
  using upto_rec1 [of 1 10] by simp

section \<open>Claims about the identity scheme\<close>

text \<open>
  C5 (amended). For every identity whose repository part contains exactly one \<open>/\<close> and no
  \<open>:\<close>, and whose event id is non-empty and contains no \<open>:\<close>, the constructor accepts it and
  parsing its serialized reference gives the same identity back:
  \<open>from_reference (reference identity) = identity\<close>.
\<close>

theorem reference_roundtrip:
  assumes "count_list r CHR ''/'' = 1" and "CHR '':'' \<notin> set r"
    and "e \<noteq> []" and "CHR '':'' \<notin> set e"
  shows "GitHubEvent_init r e = Inr \<lparr>repo_full_name = r, event_id = e\<rparr> \<and>
         from_reference (reference \<lparr>repo_full_name = r, event_id = e\<rparr>) =
           Inr \<lparr>repo_full_name = r, event_id = e\<rparr>"
  using assms by (simp add: GitHubEvent_init_eq from_reference_of_reference)

theorem reference_roundtrip_witness:
  "count_list ''octo/repo'' CHR ''/'' = 1 \<and> CHR '':'' \<notin> set ''octo/repo'' \<and>
   ''commit_ab12'' \<noteq> [] \<and> CHR '':'' \<notin> set ''commit_ab12'' \<and>
   GitHubEvent_init ''octo/repo'' ''commit_ab12'' =
     Inr \<lparr>repo_full_name = ''octo/repo'', event_id = ''commit_ab12''\<rparr> \<and>
   from_reference (reference \<lparr>repo_full_name = ''octo/repo'', event_id = ''commit_ab12''\<rparr>) =
     Inr \<lparr>repo_full_name = ''octo/repo'', event_id = ''commit_ab12''\<rparr>"
  using reference_roundtrip [of "''octo/repo''" "''commit_ab12''"] by simp

text \<open>
  C5 as stated fails: the repository part \<open>a:b/c\<close> contains exactly one \<open>/\<close>, the event id
  \<open>x\<close> is non-empty and has no \<open>:\<close>, the constructor accepts the pair, and parsing the
  reference \<open>a:b/c:x\<close> raises ValueError, because the string is cut at its first \<open>:\<close>.
\<close>

theorem reference_roundtrip_counterexample:
  "count_list ''a:b/c'' CHR ''/'' = 1 \<and> ''x'' \<noteq> [] \<and> CHR '':'' \<notin> set ''x'' \<and>
   GitHubEvent_init ''a:b/c'' ''x'' = Inr \<lparr>repo_full_name = ''a:b/c'', event_id = ''x''\<rparr> \<and>
   reference \<lparr>repo_full_name = ''a:b/c'', event_id = ''x''\<rparr> = ''a:b/c:x'' \<and>
   from_reference (reference \<lparr>repo_full_name = ''a:b/c'', event_id = ''x''\<rparr>) =
     Inl (ValueError ''Invalid repository part in GitHubEvent reference'')"
  by (simp add: GitHubEvent_init_def from_reference_def reference_def split_max1_def)

text \<open>
  C6 (amended). \<open>from_reference\<close> raises ValueError exactly for the strings that contain no
  \<open>:\<close>, or whose repository part (the text before the first \<open>:\<close>) does not contain exactly one
  \<open>/\<close>, or whose text after the first \<open>:\<close> is empty. The string is cut at the first \<open>:\<close> only
  (there is no escaping), so every other string is accepted, also with further \<open>:\<close> in it,
  which then belong to the event id.
\<close>

theorem from_reference_rejects_iff:
  "isl (from_reference s) \<longleftrightarrow>
     (CHR '':'' \<notin> set s \<or>
      count_list (takeWhile (\<lambda>x. x \<noteq> CHR '':'') s) CHR ''/'' \<noteq> 1 \<or>
      tl (dropWhile (\<lambda>x. x \<noteq> CHR '':'') s) = [])"
  by (simp add: from_reference_eq)

theorem from_reference_rejects_iff_witness:
  "isl (from_reference ''owner/repo'') \<and> CHR '':'' \<notin> set ''owner/repo'' \<and>
   isl (from_reference ''a/b/c:e1'') \<and>
   count_list (takeWhile (\<lambda>x. x \<noteq> CHR '':'') ''a/b/c:e1'') CHR ''/'' = 2 \<and>
   isl (from_reference ''repo:e1'') \<and>
   count_list (takeWhile (\<lambda>x. x \<noteq> CHR '':'') ''repo:e1'') CHR ''/'' = 0 \<and>
   isl (from_reference ''owner/repo:'') \<and>
   \<not> isl (from_reference ''owner/repo:e1'')"
  using from_reference_rejects_iff [of "''owner/repo''"]
    from_reference_rejects_iff [of "''a/b/c:e1''"]
    from_reference_rejects_iff [of "''repo:e1''"]
    from_reference_rejects_iff [of "''owner/repo:''"]
    from_reference_rejects_iff [of "''owner/repo:e1''"]
  by simp

text \<open>
  C6 as stated fails: \<open>o/r:a:b\<close> contains two \<open>:\<close> separators, not exactly one, and is
  accepted, with event id \<open>a:b\<close>.
\<close>

theorem from_reference_two_separators_counterexample:
  "count_list ''o/r:a:b'' CHR '':'' = 2 \<and>
   from_reference ''o/r:a:b'' = Inr \<lparr>repo_full_name = ''o/r'', event_id = ''a:b''\<rparr>"
  by (simp add: GitHubEvent_init_def from_reference_def split_max1_def)

text \<open>
  C10 (amended). For every repository name with exactly one \<open>/\<close> and no \<open>:\<close>, the constructor
  accepts the empty event id, and \<open>from_reference\<close> rejects the resulting reference
  \<open>owner/repo:\<close> with ValueError; for such repository names the round trip fails exactly when
  the event id is empty.
\<close>

theorem empty_event_id_roundtrip:
  assumes "count_list r CHR ''/'' = 1" and "CHR '':'' \<notin> set r"
  shows "GitHubEvent_init r [] = Inr \<lparr>repo_full_name = r, event_id = []\<rparr> \<and>
         reference \<lparr>repo_full_name = r, event_id = []\<rparr> = r @ '':'' \<and>
         from_reference (reference \<lparr>repo_full_name = r, event_id = []\<rparr>) =
           Inl (ValueError ''Event ID part cannot be empty in GitHubEvent reference'') \<and>
         (from_reference (reference \<lparr>repo_full_name = r, event_id = e\<rparr>) \<noteq>
            Inr \<lparr>repo_full_name = r, event_id = e\<rparr> \<longleftrightarrow> e = [])"
proof -
  have a: "GitHubEvent_init r [] = Inr \<lparr>repo_full_name = r, event_id = []\<rparr>"
    using assms by (simp add: GitHubEvent_init_eq)
  have b: "reference \<lparr>repo_full_name = r, event_id = []\<rparr> = r @ '':''"
    by (simp add: reference_def)
  have c: "from_reference (reference \<lparr>repo_full_name = r, event_id = x\<rparr>) =
             (if x = [] then Inl (ValueError ''Event ID part cannot be empty in GitHubEvent reference'')
              else Inr \<lparr>repo_full_name = r, event_id = x\<rparr>)" for x
    using assms by (simp add: from_reference_of_reference)
  have d: "from_reference (reference \<lparr>repo_full_name = r, event_id = []\<rparr>) =
             Inl (ValueError ''Event ID part cannot be empty in GitHubEvent reference'')"
    by (simp add: c)
  have e: "from_reference (reference \<lparr>repo_full_name = r, event_id = e\<rparr>) \<noteq>
             Inr \<lparr>repo_full_name = r, event_id = e\<rparr> \<longleftrightarrow> e = []"
    by (simp add: c)
  from a b d e show ?thesis by blast
qed

theorem empty_event_id_roundtrip_witness:
  "count_list ''owner/repo'' CHR ''/'' = 1 \<and> CHR '':'' \<notin> set ''owner/repo'' \<and>
   GitHubEvent_init ''owner/repo'' [] = Inr \<lparr>repo_full_name = ''owner/repo'', event_id = []\<rparr> \<and>
   reference \<lparr>repo_full_name = ''owner/repo'', event_id = []\<rparr> = ''owner/repo:'' \<and>
   from_reference (reference \<lparr>repo_full_name = ''owner/repo'', event_id = []\<rparr>) =
     Inl (ValueError ''Event ID part cannot be empty in GitHubEvent reference'') \<and>
   from_reference (reference \<lparr>repo_full_name = ''owner/repo'', event_id = ''e1''\<rparr>) =
     Inr \<lparr>repo_full_name = ''owner/repo'', event_id = ''e1''\<rparr>"
  using empty_event_id_roundtrip [of "''owner/repo''" "''e1''"] by (simp add: reference_def)

text \<open>
  C10 as stated fails: the repository name \<open>a/b:c\<close> contains exactly one \<open>/\<close>, the constructor
  accepts it with the empty event id, and the reference \<open>a/b:c:\<close> is not rejected:
  \<open>from_reference\<close> returns the different identity with repository \<open>a/b\<close> and event id \<open>c:\<close>.
\<close>

theorem empty_event_id_counterexample:
  "count_list ''a/b:c'' CHR ''/'' = 1 \<and>
   GitHubEvent_init ''a/b:c'' [] = Inr \<lparr>repo_full_name = ''a/b:c'', event_id = []\<rparr> \<and>
   reference \<lparr>repo_full_name = ''a/b:c'', event_id = []\<rparr> = ''a/b:c:'' \<and>
   from_reference (reference \<lparr>repo_full_name = ''a/b:c'', event_id = []\<rparr>) =
     Inr \<lparr>repo_full_name = ''a/b'', event_id = ''c:''\<rparr>"
  by (simp add: GitHubEvent_init_def from_reference_def reference_def split_max1_def)

section \<open>Claims about the dedup classifier\<close>

text \<open>
  C1. For a knowledge object with a GitHubEvent identity and a manifest: when the cache holds
  no bundle for the identity, the handler labels it NEW; when the cached bundle's manifest has
  the same content hash, the handler returns \<open>STOP_CHAIN\<close> (nothing goes further down the
  chain); when the hash differs, it labels it UPDATE, whatever the two timestamps are (an
  earlier or equal timestamp only adds a warning to the log).
\<close>

theorem classification_matrix:
  assumes "rid kobj = GitHubEventRID g" and "manifest kobj = Some m"
  shows "(cache_read (rid kobj) = Inr None \<longrightarrow>
            fst (github_event_manifest_handler cache_read kobj) =
              Continue (kobj\<lparr>normalized_event_type := Some NEW\<rparr>)) \<and>
         (\<forall>prev pm. cache_read (rid kobj) = Inr (Some prev) \<and> bundle_manifest prev = Some pm \<longrightarrow>
            (sha256_hash pm = sha256_hash m \<longrightarrow>
               fst (github_event_manifest_handler cache_read kobj) = STOP_CHAIN) \<and>
            (sha256_hash pm \<noteq> sha256_hash m \<longrightarrow>
               fst (github_event_manifest_handler cache_read kobj) =
                 Continue (kobj\<lparr>normalized_event_type := Some UPDATE\<rparr>)))"
  using assms by (auto simp: github_event_manifest_handler_def)

theorem classification_matrix_witness:
  "fst (github_event_manifest_handler (\<lambda>_. Inr None)
      \<lparr>rid = GitHubEventRID \<lparr>repo_full_name = ''o/r'', event_id = ''e1''\<rparr>,
       manifest = Some \<lparr>sha256_hash = ''h1'', timestamp = 5\<rparr>,
       event_type = None, normalized_event_type = None\<rparr>) =
     Continue
      \<lparr>rid = GitHubEventRID \<lparr>repo_full_name = ''o/r'', event_id = ''e1''\<rparr>,
       manifest = Some \<lparr>sha256_hash = ''h1'', timestamp = 5\<rparr>,
       event_type = None, normalized_event_type = Some NEW\<rparr> \<and>
   fst (github_event_manifest_handler
      (\<lambda>_. Inr (Some \<lparr>bundle_manifest = Some \<lparr>sha256_hash = ''h1'', timestamp = 9\<rparr>\<rparr>))
      \<lparr>rid = GitHubEventRID \<lparr>repo_full_name = ''o/r'', event_id = ''e1''\<rparr>,
       manifest = Some \<lparr>sha256_hash = ''h1'', timestamp = 5\<rparr>,
       event_type = None, normalized_event_type = None\<rparr>) = STOP_CHAIN \<and>
   fst (github_event_manifest_handler
      (\<lambda>_. Inr (Some \<lparr>bundle_manifest = Some \<lparr>sha256_hash = ''h0'', timestamp = 9\<rparr>\<rparr>))
      \<lparr>rid = GitHubEventRID \<lparr>repo_full_name = ''o/r'', event_id = ''e1''\<rparr>,
       manifest = Some \<lparr>sha256_hash = ''h1'', timestamp = 5\<rparr>,
       event_type = None, normalized_event_type = None\<rparr>) =
     Continue
      \<lparr>rid = GitHubEventRID \<lparr>repo_full_name = ''o/r'', event_id = ''e1''\<rparr>,
       manifest = Some \<lparr>sha256_hash = ''h1'', timestamp = 5\<rparr>,
       event_type = None, normalized_event_type = Some UPDATE\<rparr>"
  using
    classification_matrix [where cache_read = "\<lambda>_. Inr None"
      and kobj = "\<lparr>rid = GitHubEventRID \<lparr>repo_full_name = ''o/r'', event_id = ''e1''\<rparr>,
       manifest = Some \<lparr>sha256_hash = ''h1'', timestamp = 5\<rparr>,
       event_type = None, normalized_event_type = None\<rparr>"
      and g = "\<lparr>repo_full_name = ''o/r'', event_id = ''e1''\<rparr>"
      and m = "\<lparr>sha256_hash = ''h1'', timestamp = 5\<rparr>"]
    classification_matrix [where
      cache_read = "\<lambda>_. Inr (Some \<lparr>bundle_manifest = Some \<lparr>sha256_hash = ''h1'', timestamp = 9\<rparr>\<rparr>)"
      and kobj = "\<lparr>rid = GitHubEventRID \<lparr>repo_full_name = ''o/r'', event_id = ''e1''\<rparr>,
       manifest = Some \<lparr>sha256_hash = ''h1'', timestamp = 5\<rparr>,
       event_type = None, normalized_event_type = None\<rparr>"
      and g = "\<lparr>repo_full_name = ''o/r'', event_id = ''e1''\<rparr>"
      and m = "\<lparr>sha256_hash = ''h1'', timestamp = 5\<rparr>"]
    classification_matrix [where
      cache_read = "\<lambda>_. Inr (Some \<lparr>bundle_manifest = Some \<lparr>sha256_hash = ''h0'', timestamp = 9\<rparr>\<rparr>)"
      and kobj = "\<lparr>rid = GitHubEventRID \<lparr>repo_full_name = ''o/r'', event_id = ''e1''\<rparr>,
       manifest = Some \<lparr>sha256_hash = ''h1'', timestamp = 5\<rparr>,
       event_type = None, normalized_event_type = None\<rparr>"
      and g = "\<lparr>repo_full_name = ''o/r'', event_id = ''e1''\<rparr>"
      and m = "\<lparr>sha256_hash = ''h1'', timestamp = 5\<rparr>"]
  by simp

text \<open>
  C9. When the cache read raises, the handler goes on as if nothing were cached: the
  knowledge object is labelled NEW and passed on, never dropped; the failure is logged as an
  error.
\<close>

theorem cache_failure_is_new:
  assumes "rid kobj = GitHubEventRID g" and "cache_read (rid kobj) = Inl e"
  shows "github_event_manifest_handler cache_read kobj =
           (Continue (kobj\<lparr>normalized_event_type := Some NEW\<rparr>), [DEBUG, ERROR, INFO])"
  using assms by (simp add: github_event_manifest_handler_def)

theorem cache_failure_is_new_witness:
  "github_event_manifest_handler (\<lambda>_. Inl (OtherException ''cache unavailable''))
      \<lparr>rid = GitHubEventRID \<lparr>repo_full_name = ''o/r'', event_id = ''e1''\<rparr>,
       manifest = Some \<lparr>sha256_hash = ''h1'', timestamp = 5\<rparr>,
       event_type = Some UPDATE, normalized_event_type = None\<rparr> =
     (Continue
      \<lparr>rid = GitHubEventRID \<lparr>repo_full_name = ''o/r'', event_id = ''e1''\<rparr>,
       manifest = Some \<lparr>sha256_hash = ''h1'', timestamp = 5\<rparr>,
       event_type = Some UPDATE, normalized_event_type = Some NEW\<rparr>, [DEBUG, ERROR, INFO])"
  using cache_failure_is_new [where cache_read = "\<lambda>_. Inl (OtherException ''cache unavailable'')"
      and kobj = "\<lparr>rid = GitHubEventRID \<lparr>repo_full_name = ''o/r'', event_id = ''e1''\<rparr>,
       manifest = Some \<lparr>sha256_hash = ''h1'', timestamp = 5\<rparr>,
       event_type = Some UPDATE, normalized_event_type = None\<rparr>"
      and g = "\<lparr>repo_full_name = ''o/r'', event_id = ''e1''\<rparr>"
      and e = "OtherException ''cache unavailable''"]
  by simp

section \<open>Claims about the push handler\<close>

text \<open>
  C8 (amended). For every push event whose \<open>after\<close> SHA is forty zeros, that carries no
  delivery identifier, and whose \<open>deleted\<close> flag is set while \<open>forced\<close> is not, the event id is
  \<open>delete_ref_\<close>, then the ref name with every \<open>/\<close> replaced by \<open>_\<close>, then \<open>_\<close> and the
  \<open>before\<close> SHA; when the repository's full name has exactly one \<open>/\<close> the event is handled
  as NEW under that identity.
\<close>

theorem branch_deletion_event_id:
  assumes "after payload = zero_sha" and "\<not> truthy delivery_id"
    and "deleted payload" and "\<not> forced payload"
  shows "push_event_id digest delivery_id payload =
           ''delete_ref_'' @ replace CHR ''/'' CHR ''_'' (ref payload) @ ''_'' @ before payload \<and>
         prefix ''delete_ref_'' (push_event_id digest delivery_id payload) \<and>
         (count_list (repository_full_name payload) CHR ''/'' = 1 \<longrightarrow>
            handle_push_event digest delivery_id (Some payload) =
              Handled \<lparr>repo_full_name = repository_full_name payload,
                       event_id = ''delete_ref_'' @ replace CHR ''/'' CHR ''_'' (ref payload) @
                                  ''_'' @ before payload\<rparr> NEW)"
proof -
  have eid: "push_event_id digest delivery_id payload =
           ''delete_ref_'' @ replace CHR ''/'' CHR ''_'' (ref payload) @ ''_'' @ before payload"
    using assms by (cases delivery_id) (simp_all add: push_event_id_def)
  have pre: "prefix ''delete_ref_'' (push_event_id digest delivery_id payload)"
    unfolding eid by (rule prefixI) simp
  have "handle_push_event digest delivery_id (Some payload) =
              Handled \<lparr>repo_full_name = repository_full_name payload,
                       event_id = ''delete_ref_'' @ replace CHR ''/'' CHR ''_'' (ref payload) @
                                  ''_'' @ before payload\<rparr> NEW"
    if "count_list (repository_full_name payload) CHR ''/'' = 1"
    using that by (simp add: handle_push_event_def GitHubEvent_init_eq eid)
  with eid pre show ?thesis by blast
qed

theorem branch_deletion_event_id_witness:
  "handle_push_event (\<lambda>_. []) None
     (Some \<lparr>ref = ''refs/heads/old'', before = ''abc123'', after = zero_sha,
            repository_full_name = ''octo/repo'', deleted = True, forced = False\<rparr>) =
   Handled \<lparr>repo_full_name = ''octo/repo'',
            event_id = ''delete_ref_refs_heads_old_abc123''\<rparr> NEW \<and>
   prefix ''delete_ref_'' ''delete_ref_refs_heads_old_abc123''"
  using branch_deletion_event_id [where digest = "\<lambda>_. []" and delivery_id = None
      and payload = "\<lparr>ref = ''refs/heads/old'', before = ''abc123'', after = zero_sha,
            repository_full_name = ''octo/repo'', deleted = True, forced = False\<rparr>"]
  by (simp add: replace_def)

text \<open>
  C8 as stated fails: a push with the all-zero \<open>after\<close> SHA and no delivery identifier whose
  \<open>forced\<close> flag is set goes to the hash fallback, whatever the digest function is: its event
  id is sixteen hexadecimal characters, which never start with \<open>delete_ref_\<close>.
\<close>

theorem forced_deletion_counterexample:
  "\<forall>digest.
     after \<lparr>ref = ''refs/heads/old'', before = ''abc123'', after = zero_sha,
            repository_full_name = ''octo/repo'', deleted = True, forced = True\<rparr> =
       ''0000000000000000000000000000000000000000'' \<and>
     handle_push_event digest None
       (Some \<lparr>ref = ''refs/heads/old'', before = ''abc123'', after = zero_sha,
              repository_full_name = ''octo/repo'', deleted = True, forced = True\<rparr>) =
     Handled \<lparr>repo_full_name = ''octo/repo'',
              event_id = take 16 (hexdigest (digest
                ''octo/repo_push_refs/heads/old_abc123_0000000000000000000000000000000000000000''))\<rparr>
       NEW \<and>
     \<not> prefix ''delete_ref_'' (take 16 (hexdigest (digest
         ''octo/repo_push_refs/heads/old_abc123_0000000000000000000000000000000000000000'')))"
  by (simp add: handle_push_event_def push_event_id_def GitHubEvent_init_def zero_sha_def
      hexdigest_no_delete_ref)

section \<open>Claims about the conditional API client\<close>

text \<open>
  C4 (amended). A paginated fetch asks for the pages 1, 2, ... in order and stops exactly at
  the first page at which the request yields no response (304 Not Modified or a failed
  request), or the page is empty, or the page has fewer items than the requested page size,
  or at page \<open>max_pages\<close> when no earlier page stops it. The items returned are the items of
  the requested pages, concatenated in page order. A resource with exactly 125 items and page
  size 50 yields 3 fetched pages and the 125 items in upstream order.
\<close>

theorem pagination_stops:
  fixes transport :: "request \<Rightarrow> 'a list http_outcome" and xs :: "'b list"
  shows
  "requests_sent (get_repo_list_paged_run transport path' params' etag max_pages) =
     map (page_request path' params' etag) [1..pages_fetched transport path' params' etag max_pages] \<and>
   fst (get_repo_list_paged transport path' params' etag max_pages) =
     concat (map (page_items transport path' params' etag)
       [1..pages_fetched transport path' params' etag max_pages]) \<and>
   pages_fetched transport path' params' etag max_pages \<le> max 0 max_pages \<and>
   (1 \<le> max_pages \<longrightarrow> 1 \<le> pages_fetched transport path' params' etag max_pages) \<and>
   (\<forall>k. 1 \<le> k \<and> k < pages_fetched transport path' params' etag max_pages \<longrightarrow>
        \<not> page_stops transport path' params' etag k) \<and>
   (pages_fetched transport path' params' etag max_pages < max_pages \<longrightarrow>
      page_stops transport path' params' etag (pages_fetched transport path' params' etag max_pages)) \<and>
   (length xs = 125 \<and> per_page params' = Some 50 \<longrightarrow>
      pages_fetched (simulated_resource xs) path' params' etag 10 = 3 \<and>
      get_repo_list_paged (simulated_resource xs) path' params' etag 10 = (xs, Some ''v1''))"
proof -
  have "fst (get_repo_list_paged transport path' params' etag max_pages) =
     concat (map (page_items transport path' params' etag)
       [1..pages_fetched transport path' params' etag max_pages])"
    by (simp add: get_repo_list_paged_eq)
  moreover have "length xs = 125 \<and> per_page params' = Some 50 \<longrightarrow>
      pages_fetched (simulated_resource xs) path' params' etag 10 = 3 \<and>
      get_repo_list_paged (simulated_resource xs) path' params' etag 10 = (xs, Some ''v1'')"
    using simulated_125 [of xs params' path' etag] by blast
  ultimately show ?thesis
    using paged_run_char [where transport = transport and path' = path' and params' = params'
        and etag = etag and max_pages = max_pages] by blast
qed

theorem pagination_stops_witness:
  "length [0..<125] = 125 \<and>
   pages_fetched (simulated_resource [0..<125]) ''/repos/o/r/issues''
     \<lparr>state_filter = Some ''all'', per_page = Some 50, since = None, page = None\<rparr> None 10 = 3 \<and>
   get_repo_list_paged (simulated_resource [0..<125]) ''/repos/o/r/issues''
     \<lparr>state_filter = Some ''all'', per_page = Some 50, since = None, page = None\<rparr> None 10 =
     ([0..<125], Some ''v1'') \<and>
   page_items (simulated_resource [0..<125]) ''/repos/o/r/issues''
     \<lparr>state_filter = Some ''all'', per_page = Some 50, since = None, page = None\<rparr> None 1 = [0..<50] \<and>
   page_items (simulated_resource [0..<125]) ''/repos/o/r/issues''
     \<lparr>state_filter = Some ''all'', per_page = Some 50, since = None, page = None\<rparr> None 2 = [50..<100] \<and>
   page_items (simulated_resource [0..<125]) ''/repos/o/r/issues''
     \<lparr>state_filter = Some ''all'', per_page = Some 50, since = None, page = None\<rparr> None 3 = [100..<125] \<and>
   \<not> page_stops (simulated_resource [0..<125]) ''/repos/o/r/issues''
     \<lparr>state_filter = Some ''all'', per_page = Some 50, since = None, page = None\<rparr> None 1 \<and>
   \<not> page_stops (simulated_resource [0..<125]) ''/repos/o/r/issues''
     \<lparr>state_filter = Some ''all'', per_page = Some 50, since = None, page = None\<rparr> None 2 \<and>
   page_stops (simulated_resource [0..<125]) ''/repos/o/r/issues''
     \<lparr>state_filter = Some ''all'', per_page = Some 50, since = None, page = None\<rparr> None 3"
  using pagination_stops [where transport = "simulated_resource [0..<125]" and xs = "[0..<125]"
      and path' = "''/repos/o/r/issues''" and etag = None and max_pages = 10
      and params' = "\<lparr>state_filter = Some ''all'', per_page = Some 50, since = None, page = None\<rparr>"]
  by (simp add: page_items_def page_stops_def simulated_page_result requested_page_size_def)

text \<open>
  C4 as stated fails: with page size 2 and the cap 10, page 1 comes back full (two items) and
  the request for page 2 fails with a connection error. Pagination stops after two requests,
  though no page was short or empty and the cap was not reached.
\<close>

theorem pagination_failed_page_counterexample:
  "requested_page_size
     \<lparr>state_filter = Some ''all'', per_page = Some 2, since = None, page = None\<rparr> = 2 \<and>
   page_result
     (\<lambda>req. case query req of
               None \<Rightarrow> RequestError
             | Some q \<Rightarrow> if page q = Some 1 then Response 200 (Some ''v1'') [10, 20::nat]
                         else RequestError)
     ''/repos/o/r/issues''
     \<lparr>state_filter = Some ''all'', per_page = Some 2, since = None, page = None\<rparr> None 1 =
     (Some [10, 20], Some ''v1'') \<and>
   page_result
     (\<lambda>req. case query req of
               None \<Rightarrow> RequestError
             | Some q \<Rightarrow> if page q = Some 1 then Response 200 (Some ''v1'') [10, 20::nat]
                         else RequestError)
     ''/repos/o/r/issues''
     \<lparr>state_filter = Some ''all'', per_page = Some 2, since = None, page = None\<rparr> None 2 =
     (None, None) \<and>
   pages_fetched
     (\<lambda>req. case query req of
               None \<Rightarrow> RequestError
             | Some q \<Rightarrow> if page q = Some 1 then Response 200 (Some ''v1'') [10, 20::nat]
                         else RequestError)
     ''/repos/o/r/issues''
     \<lparr>state_filter = Some ''all'', per_page = Some 2, since = None, page = None\<rparr> None 10 = 2 \<and>
   get_repo_list_paged
     (\<lambda>req. case query req of
               None \<Rightarrow> RequestError
             | Some q \<Rightarrow> if page q = Some 1 then Response 200 (Some ''v1'') [10, 20::nat]
                         else RequestError)
     ''/repos/o/r/issues''
     \<lparr>state_filter = Some ''all'', per_page = Some 2, since = None, page = None\<rparr> None 10 =
     ([10, 20], Some ''v1'')"
  by (simp add: pages_fetched_def get_repo_list_paged_def get_repo_list_paged_run_def
      upto_rec1 [of 1 10] paged_step_def make_github_request_def github_request_def
      raise_for_status_def requested_page_size_def page_result_def Let_def)

section \<open>Claims about the backfill controller\<close>

text \<open>
  C2. When the upstream answers the first, conditional request of a list fetch with 304 Not
  Modified, \<open>_make_github_request\<close> returns no response and the prior ETag, and the paginated
  fetch returns the empty list with the prior ETag after that single request. In a backfill
  pass over a repository whose stored issues (pull requests) ETag is answered 304, the stored
  \<open>issues_last_processed_update_ts\<close> (\<open>prs_last_processed_update_ts\<close>) and the stored ETag are
  after the pass what they were before it.
\<close>

theorem not_modified_short_circuit:
  fixes transport :: "request \<Rightarrow> 'a list http_outcome"
  assumes "e \<noteq> []"
  shows
  "(1 \<le> max_pages \<and> transport (page_request path' params' (Some e) 1) = Response 304 h b \<longrightarrow>
      make_github_request transport ''GET'' path' (Some (params'\<lparr>page := Some 1\<rparr>)) (Some e) =
        (None, Some e) \<and>
      get_repo_list_paged transport path' params' (Some e) max_pages = ([], Some e) \<and>
      pages_fetched transport path' params' (Some e) max_pages = 1) \<and>
   (repo_state ''issues_list_etag'' = Some e \<and>
    (\<forall>req. path req = ''/repos/'' @ owner @ ''/'' @ repo_name @ ''/issues'' \<and>
           if_none_match req = Some e \<longrightarrow> (\<exists>h b. lt req = Response 304 h b)) \<longrightarrow>
      fetched_issues cfg lt owner repo_name repo_state = [] \<and>
      state (backfill_repository_data cfg dt lt owner repo_name repo_state)
          ''issues_last_processed_update_ts'' = repo_state ''issues_last_processed_update_ts'' \<and>
      state (backfill_repository_data cfg dt lt owner repo_name repo_state)
          ''issues_list_etag'' = Some e) \<and>
   (repo_state ''prs_list_etag'' = Some e \<and>
    (\<forall>req. path req = ''/repos/'' @ owner @ ''/'' @ repo_name @ ''/pulls'' \<and>
           if_none_match req = Some e \<longrightarrow> (\<exists>h b. lt req = Response 304 h b)) \<longrightarrow>
      fetched_prs cfg lt owner repo_name repo_state = [] \<and>
      state (backfill_repository_data cfg dt lt owner repo_name repo_state)
          ''prs_last_processed_update_ts'' = repo_state ''prs_last_processed_update_ts'' \<and>
      state (backfill_repository_data cfg dt lt owner repo_name repo_state)
          ''prs_list_etag'' = Some e)"
proof (intro conjI impI)
  assume a: "1 \<le> max_pages \<and> transport (page_request path' params' (Some e) 1) = Response 304 h b"
  then have first: "page_result transport path' params' (Some e) 1 = (None, Some e)"
    by (simp add: page_result_304)
  then show "make_github_request transport ''GET'' path' (Some (params'\<lparr>page := Some 1\<rparr>)) (Some e) =
        (None, Some e)"
    by (simp add: page_result_def)
  show "get_repo_list_paged transport path' params' (Some e) max_pages = ([], Some e)"
    using a by (intro get_repo_list_paged_304 [where h = h and b = b]) simp_all
  show "pages_fetched transport path' params' (Some e) max_pages = 1"
    using a first by (intro stops_at_first_page) simp_all
next
  assume a: "repo_state ''issues_list_etag'' = Some e \<and>
    (\<forall>req. path req = ''/repos/'' @ owner @ ''/'' @ repo_name @ ''/issues'' \<and>
           if_none_match req = Some e \<longrightarrow> (\<exists>h b. lt req = Response 304 h b))"
  let ?r12 = "and_then (backfill_repo_details dt owner repo_name repo_state)
                  (backfill_commits cfg lt owner repo_name)"
  have same: "backfill_issues cfg lt owner repo_name st = \<lparr>state = st, handled = [], raised = None\<rparr>"
    if "st ''issues_list_etag'' = Some e" for st
    using that a assms by (intro backfill_issues_not_modified [where e = e]) auto
  have et: "state ?r12 ''issues_list_etag'' = Some e"
    using a by (simp add: state_after_commits)
  have ts: "state ?r12 ''issues_last_processed_update_ts'' = repo_state ''issues_last_processed_update_ts''"
    by (simp add: state_after_commits)
  show "state (backfill_repository_data cfg dt lt owner repo_name repo_state)
          ''issues_last_processed_update_ts'' = repo_state ''issues_last_processed_update_ts''"
    by (simp add: issues_key_of_pass Let_def same [of "state ?r12", OF et] ts split: option.splits)
  show "state (backfill_repository_data cfg dt lt owner repo_name repo_state)
          ''issues_list_etag'' = Some e"
    using a by (simp add: issues_key_of_pass Let_def same [of "state ?r12", OF et] et split: option.splits)
  have r: "\<exists>h b. lt req = Response 304 h b"
    if "path req = ''/repos/'' @ owner @ ''/'' @ repo_name @ ''/issues''"
      and "if_none_match req = Some e" for req
    using a that by blast
  show "fetched_issues cfg lt owner repo_name repo_state = []"
    using a get_repo_issues_304 [of owner repo_name e lt, OF r assms]
    by (simp add: fetched_issues_def)
next
  assume a: "repo_state ''prs_list_etag'' = Some e \<and>
    (\<forall>req. path req = ''/repos/'' @ owner @ ''/'' @ repo_name @ ''/pulls'' \<and>
           if_none_match req = Some e \<longrightarrow> (\<exists>h b. lt req = Response 304 h b))"
  let ?r123 = "and_then (and_then (backfill_repo_details dt owner repo_name repo_state)
                   (backfill_commits cfg lt owner repo_name))
                   (backfill_issues cfg lt owner repo_name)"
  have same: "backfill_pull_requests cfg lt owner repo_name st = \<lparr>state = st, handled = [], raised = None\<rparr>"
    if "st ''prs_list_etag'' = Some e" for st
    using that a assms by (intro backfill_pull_requests_not_modified [where e = e]) auto
  have et: "state ?r123 ''prs_list_etag'' = Some e"
    using a by (simp add: state_after_issues)
  have ts: "state ?r123 ''prs_last_processed_update_ts'' = repo_state ''prs_last_processed_update_ts''"
    by (simp add: state_after_issues)
  show "state (backfill_repository_data cfg dt lt owner repo_name repo_state)
          ''prs_last_processed_update_ts'' = repo_state ''prs_last_processed_update_ts''"
    by (simp add: prs_key_of_pass Let_def same [of "state ?r123", OF et] ts split: option.splits)
  show "state (backfill_repository_data cfg dt lt owner repo_name repo_state)
          ''prs_list_etag'' = Some e"
    using a by (simp add: prs_key_of_pass Let_def same [of "state ?r123", OF et] et split: option.splits)
  have r: "\<exists>h b. lt req = Response 304 h b"
    if "path req = ''/repos/'' @ owner @ ''/'' @ repo_name @ ''/pulls''"
      and "if_none_match req = Some e" for req
    using a that by blast
  show "fetched_prs cfg lt owner repo_name repo_state = []"
    using a get_repo_pull_requests_304 [of owner repo_name e lt, OF r assms]
    by (simp add: fetched_prs_def)
qed


theorem not_modified_short_circuit_witness:
  "''abc'' \<noteq> [] \<and>
   get_repo_list_paged
     (\<lambda>req. if if_none_match req = Some ''abc'' then Response 304 None [] else RequestError)
     ''/repos/o/r/issues''
     \<lparr>state_filter = Some ''all'', per_page = Some 50, since = None, page = None\<rparr>
     (Some ''abc'') 10 = ([] :: gh_object list, Some ''abc'') \<and>
   state (backfill_repository_data
     \<lparr>backfill_max_items = 50, backfill_lookback_days = 30,
      lookback_since = ''2024-05-01T00:00:00Z''\<rparr>
     (\<lambda>req. RequestError)
     (\<lambda>req. if if_none_match req = Some ''abc'' then Response 304 None [] else RequestError)
     ''o'' ''r''
     [''issues_list_etag'' \<mapsto> ''abc'',
      ''issues_last_processed_update_ts'' \<mapsto> ''2024-06-01T00:00:00Z'',
      ''prs_list_etag'' \<mapsto> ''abc'',
      ''prs_last_processed_update_ts'' \<mapsto> ''2024-06-02T00:00:00Z''])
     ''issues_last_processed_update_ts'' = Some ''2024-06-01T00:00:00Z'' \<and>
   state (backfill_repository_data
     \<lparr>backfill_max_items = 50, backfill_lookback_days = 30,
      lookback_since = ''2024-05-01T00:00:00Z''\<rparr>
     (\<lambda>req. RequestError)
     (\<lambda>req. if if_none_match req = Some ''abc'' then Response 304 None [] else RequestError)
     ''o'' ''r''
     [''issues_list_etag'' \<mapsto> ''abc'',
      ''issues_last_processed_update_ts'' \<mapsto> ''2024-06-01T00:00:00Z'',
      ''prs_list_etag'' \<mapsto> ''abc'',
      ''prs_last_processed_update_ts'' \<mapsto> ''2024-06-02T00:00:00Z''])
     ''prs_last_processed_update_ts'' = Some ''2024-06-02T00:00:00Z''"
  using not_modified_short_circuit [where e = "''abc''" and max_pages = 10
      and transport = "\<lambda>req. if if_none_match req = Some ''abc''
                             then Response 304 None ([] :: gh_object list) else RequestError"
      and lt = "\<lambda>req. if if_none_match req = Some ''abc'' then Response 304 None [] else RequestError"
      and dt = "\<lambda>req. RequestError"
      and h = None and b = "[]"
      and path' = "''/repos/o/r/issues''"
      and params' = "\<lparr>state_filter = Some ''all'', per_page = Some 50, since = None, page = None\<rparr>"
      and owner = "''o''" and repo_name = "''r''"
      and cfg = "\<lparr>backfill_max_items = 50, backfill_lookback_days = 30,
                      lookback_since = ''2024-05-01T00:00:00Z''\<rparr>"
      and repo_state = "[''issues_list_etag'' \<mapsto> ''abc'',
      ''issues_last_processed_update_ts'' \<mapsto> ''2024-06-01T00:00:00Z'',
      ''prs_list_etag'' \<mapsto> ''abc'',
      ''prs_last_processed_update_ts'' \<mapsto> ''2024-06-02T00:00:00Z'']"]
  by (simp add: page_request_def github_request_def)

section \<open>Claims about failed fetches\<close>

text \<open>
  C7 (amended). A transport failure or an HTTP error status raises nothing in the client:
  \<open>_make_github_request\<close> returns no response (and, for a transport failure, no ETag). The
  paginated fetch stops at the failed page and returns, as an ordinary result, the items of
  the pages fetched before it, with the ETag settled on the first page when the failed page is
  a later one; when the first request fails by a transport failure it returns no items and the
  prior ETag unchanged.
\<close>

theorem failed_fetch_result:
  fixes transport :: "request \<Rightarrow> 'b http_outcome" and lt :: "request \<Rightarrow> 'a list http_outcome"
  shows
  "(fetch_failed (transport (github_request method' p q e)) \<longrightarrow>
      fst (make_github_request transport method' p q e) = None) \<and>
   (transport (github_request method' p q e) = RequestError \<longrightarrow>
      make_github_request transport method' p q e = (None, None)) \<and>
   (1 \<le> k \<and> k \<le> max_pages \<and> fetch_failed (lt (page_request path' params' etag k)) \<and>
    (\<forall>j. 1 \<le> j \<and> j < k \<longrightarrow> \<not> page_stops lt path' params' etag j) \<longrightarrow>
      pages_fetched lt path' params' etag max_pages = k \<and>
      fst (get_repo_list_paged lt path' params' etag max_pages) =
        concat (map (page_items lt path' params' etag) [1..k - 1]) \<and>
      (1 < k \<longrightarrow>
         snd (get_repo_list_paged lt path' params' etag max_pages) =
           (if truthy (snd (page_result lt path' params' etag 1))
            then snd (page_result lt path' params' etag 1) else etag))) \<and>
   (1 \<le> max_pages \<and> lt (page_request path' params' etag 1) = RequestError \<longrightarrow>
      get_repo_list_paged lt path' params' etag max_pages = ([], etag))"
proof (intro conjI impI)
  assume "fetch_failed (transport (github_request method' p q e))"
  then show "fst (make_github_request transport method' p q e) = None"
    by (rule make_github_request_failed)
next
  assume "transport (github_request method' p q e) = RequestError"
  then show "make_github_request transport method' p q e = (None, None)"
    by (rule make_github_request_RequestError)
next
  assume a: "1 \<le> k \<and> k \<le> max_pages \<and> fetch_failed (lt (page_request path' params' etag k)) \<and>
    (\<forall>j. 1 \<le> j \<and> j < k \<longrightarrow> \<not> page_stops lt path' params' etag j)"
  then have none: "fst (page_result lt path' params' etag k) = None"
    by (simp add: page_result_failed)
  note r = get_repo_list_paged_failed_page [where transport = lt and k = k and max_pages = max_pages
      and path' = path' and params' = params' and etag = etag, OF _ _ none]
  show "pages_fetched lt path' params' etag max_pages = k"
    using a by (intro r(1)) simp_all
  have "get_repo_list_paged lt path' params' etag max_pages =
      (concat (map (page_items lt path' params' etag) [1..k - 1]),
       if truthy (snd (page_result lt path' params' etag 1))
       then snd (page_result lt path' params' etag 1) else etag)"
    using a by (intro r(2)) simp_all
  then show "fst (get_repo_list_paged lt path' params' etag max_pages) =
        concat (map (page_items lt path' params' etag) [1..k - 1])"
    and "snd (get_repo_list_paged lt path' params' etag max_pages) =
           (if truthy (snd (page_result lt path' params' etag 1))
            then snd (page_result lt path' params' etag 1) else etag)"
    by simp_all
next
  assume a: "1 \<le> max_pages \<and> lt (page_request path' params' etag 1) = RequestError"
  then have "page_result lt path' params' etag 1 = (None, None)"
    by (simp add: page_result_def page_request_def make_github_request_RequestError)
  with a show "get_repo_list_paged lt path' params' etag max_pages = ([], etag)"
    by (simp add: get_repo_list_paged_no_first_response)
qed

theorem failed_fetch_result_witness:
  "fetch_failed (RequestError :: nat http_outcome) \<and>
   make_github_request (\<lambda>req. RequestError :: nat http_outcome) ''GET'' ''/repos/o/r'' None
     (Some ''old'') = (None, None) \<and>
   fetch_failed
     ((\<lambda>req. case query req of
               None \<Rightarrow> RequestError
             | Some q \<Rightarrow> if page q = Some 1 then Response 200 (Some ''v2'') [10, 20::nat]
                         else Response 500 None []) 
      (page_request ''/repos/o/r/pulls''
         \<lparr>state_filter = Some ''all'', per_page = Some 2, since = None, page = None\<rparr>
         (Some ''old'') 2)) \<and>
   pages_fetched
     (\<lambda>req. case query req of
               None \<Rightarrow> RequestError
             | Some q \<Rightarrow> if page q = Some 1 then Response 200 (Some ''v2'') [10, 20::nat]
                         else Response 500 None [])
     ''/repos/o/r/pulls''
     \<lparr>state_filter = Some ''all'', per_page = Some 2, since = None, page = None\<rparr>
     (Some ''old'') 10 = 2 \<and>
   get_repo_list_paged (\<lambda>req. RequestError) ''/repos/o/r/pulls''
     \<lparr>state_filter = Some ''all'', per_page = Some 2, since = None, page = None\<rparr>
     (Some ''old'') 10 = ([] :: nat list, Some ''old'')"
  using failed_fetch_result [where k = 2 and max_pages = 10
      and transport = "\<lambda>req. RequestError :: nat http_outcome" and method' = "''GET''"
      and p = "''/repos/o/r''" and q = None and e = "Some ''old''"
      and lt = "\<lambda>req. case query req of
               None \<Rightarrow> RequestError
             | Some q \<Rightarrow> if page q = Some 1 then Response 200 (Some ''v2'') [10, 20::nat]
                         else Response 500 None []"
      and path' = "''/repos/o/r/pulls''" and etag = "Some ''old''"
      and params' = "\<lparr>state_filter = Some ''all'', per_page = Some 2, since = None, page = None\<rparr>"]
    failed_fetch_result [where k = 1 and max_pages = 10
      and transport = "\<lambda>req. RequestError :: nat http_outcome" and method' = "''GET''"
      and p = "''/repos/o/r''" and q = None and e = "Some ''old''"
      and lt = "\<lambda>req. RequestError :: nat list http_outcome"
      and path' = "''/repos/o/r/pulls''" and etag = "Some ''old''"
      and params' = "\<lparr>state_filter = Some ''all'', per_page = Some 2, since = None, page = None\<rparr>"]
  by (simp add: fetch_failed_def page_request_def github_request_def page_stops_def page_result_def
      make_github_request_def raise_for_status_def requested_page_size_def)

text \<open>
  C7 as stated fails: with page size 2, the prior ETag \<open>old\<close>, a full first page under the
  ETag \<open>v2\<close> and the status 500 on page 2, the fetch ends in an HTTP error and the caller
  receives, as an ordinary result, the two items of page 1 and the new ETag \<open>v2\<close>.
\<close>

theorem failed_fetch_partial_result_counterexample:
  "fetch_failed
     ((\<lambda>req. case query req of
               None \<Rightarrow> RequestError
             | Some q \<Rightarrow> if page q = Some 1 then Response 200 (Some ''v2'') [10, 20::nat]
                         else Response 500 None []) 
      (page_request ''/repos/o/r/pulls''
         \<lparr>state_filter = Some ''all'', per_page = Some 2, since = None, page = None\<rparr>
         (Some ''old'') 2)) \<and>
   get_repo_list_paged
     (\<lambda>req. case query req of
               None \<Rightarrow> RequestError
             | Some q \<Rightarrow> if page q = Some 1 then Response 200 (Some ''v2'') [10, 20::nat]
                         else Response 500 None [])
     ''/repos/o/r/pulls''
     \<lparr>state_filter = Some ''all'', per_page = Some 2, since = None, page = None\<rparr>
     (Some ''old'') 10 = ([10, 20], Some ''v2'')"
  by (simp add: fetch_failed_def page_request_def github_request_def
      get_repo_list_paged_def get_repo_list_paged_run_def
      upto_rec1 [of 1 10] paged_step_def make_github_request_def
      raise_for_status_def Let_def)

section \<open>Claims about the update cursor\<close>

text \<open>
  C3 (amended). For a repository whose owner and name contain no \<open>/\<close>, a backfill pass raises
  nothing, and for each list resource with a cursor (issues, pull requests): when the fetch
  returns at least one item, the stored cursor afterwards is the greatest of the cursor stored
  before (if any) and the \<open>updated_at\<close> values of the processed items (the first \<open>max_items\<close>
  fetched items that carry a \<open>node_id\<close>), so it is the maximum \<open>updated_at\<close> among the
  processed items whenever no later cursor was stored before; when the fetch returns no item
  the cursor is not changed. The cursor never regresses.
\<close>

theorem cursor_advance:
  assumes "CHR ''/'' \<notin> set owner" and "CHR ''/'' \<notin> set repo_name"
  shows
  "raised (backfill_repository_data cfg dt lt owner repo_name repo_state) = None \<and>
   state (backfill_repository_data cfg dt lt owner repo_name repo_state)
       ''issues_last_processed_update_ts'' =
     (if fetched_issues cfg lt owner repo_name repo_state = []
      then repo_state ''issues_last_processed_update_ts''
      else greatest_stamp (repo_state ''issues_last_processed_update_ts'')
             (update_stamps (processed_items (backfill_max_items cfg)
                (fetched_issues cfg lt owner repo_name repo_state)))) \<and>
   state (backfill_repository_data cfg dt lt owner repo_name repo_state)
       ''prs_last_processed_update_ts'' =
     (if fetched_prs cfg lt owner repo_name repo_state = []
      then repo_state ''prs_last_processed_update_ts''
      else greatest_stamp (repo_state ''prs_last_processed_update_ts'')
             (update_stamps (processed_items (backfill_max_items cfg)
                (fetched_prs cfg lt owner repo_name repo_state)))) \<and>
   (\<forall>c. repo_state ''issues_last_processed_update_ts'' = Some c \<longrightarrow>
      (\<exists>c'. state (backfill_repository_data cfg dt lt owner repo_name repo_state)
              ''issues_last_processed_update_ts'' = Some c' \<and> c \<le> c')) \<and>
   (\<forall>c. repo_state ''prs_last_processed_update_ts'' = Some c \<longrightarrow>
      (\<exists>c'. state (backfill_repository_data cfg dt lt owner repo_name repo_state)
              ''prs_last_processed_update_ts'' = Some c' \<and> c \<le> c')) \<and>
   (stamps \<noteq> [] \<and> (\<forall>c. prior = Some c \<longrightarrow> c \<le> Max (set stamps)) \<longrightarrow>
      greatest_stamp prior stamps = Some (Max (set stamps)))"
proof -
  note pass = pass_valid [OF assms, of cfg dt lt repo_state]
  have "\<exists>c'. state (backfill_repository_data cfg dt lt owner repo_name repo_state)
              ''issues_last_processed_update_ts'' = Some c' \<and> c \<le> c'"
    if "repo_state ''issues_last_processed_update_ts'' = Some c" for c
    using greatest_stamp_ge [OF that] that by (simp add: pass(2))
  moreover have "\<exists>c'. state (backfill_repository_data cfg dt lt owner repo_name repo_state)
              ''prs_last_processed_update_ts'' = Some c' \<and> c \<le> c'"
    if "repo_state ''prs_last_processed_update_ts'' = Some c" for c
    using greatest_stamp_ge [OF that] that by (simp add: pass(3))
  moreover have "stamps \<noteq> [] \<and> (\<forall>c. prior = Some c \<longrightarrow> c \<le> Max (set stamps)) \<longrightarrow>
      greatest_stamp prior stamps = Some (Max (set stamps))"
    using greatest_stamp_is_Max [of stamps prior] by blast
  ultimately show ?thesis using pass by blast
qed

theorem cursor_advance_witness:
  "CHR ''/'' \<notin> set ''o'' \<and> CHR ''/'' \<notin> set ''r'' \<and>
   ''2024-03-02T00:00:00Z'' \<le> ''2024-03-05T00:00:00Z'' \<and>
   ''2024-03-03T00:00:00Z'' < ''2024-03-05T00:00:00Z'' \<and>
   fetched_issues
     \<lparr>backfill_max_items = 50, backfill_lookback_days = 30,
      lookback_since = ''2024-02-01T00:00:00Z''\<rparr>
     (\<lambda>req. if path req = ''/repos/o/r/issues''
            then Response 200 (Some ''v1'')
              [\<lparr>node_id = Some ''I_1'', item_id = Some 1, sha = None,
                updated_at = Some ''2024-03-03T00:00:00Z'', rest = []\<rparr>,
               \<lparr>node_id = Some ''I_2'', item_id = Some 2, sha = None,
                updated_at = Some ''2024-03-05T00:00:00Z'', rest = []\<rparr>]
            else RequestError)
     ''o'' ''r'' [''issues_last_processed_update_ts'' \<mapsto> ''2024-03-02T00:00:00Z''] =
     [\<lparr>node_id = Some ''I_1'', item_id = Some 1, sha = None,
       updated_at = Some ''2024-03-03T00:00:00Z'', rest = []\<rparr>,
      \<lparr>node_id = Some ''I_2'', item_id = Some 2, sha = None,
       updated_at = Some ''2024-03-05T00:00:00Z'', rest = []\<rparr>] \<and>
   state (backfill_repository_data
     \<lparr>backfill_max_items = 50, backfill_lookback_days = 30,
      lookback_since = ''2024-02-01T00:00:00Z''\<rparr>
     (\<lambda>req. RequestError)
     (\<lambda>req. if path req = ''/repos/o/r/issues''
            then Response 200 (Some ''v1'')
              [\<lparr>node_id = Some ''I_1'', item_id = Some 1, sha = None,
                updated_at = Some ''2024-03-03T00:00:00Z'', rest = []\<rparr>,
               \<lparr>node_id = Some ''I_2'', item_id = Some 2, sha = None,
                updated_at = Some ''2024-03-05T00:00:00Z'', rest = []\<rparr>]
            else RequestError)
     ''o'' ''r'' [''issues_last_processed_update_ts'' \<mapsto> ''2024-03-02T00:00:00Z''])
     ''issues_last_processed_update_ts'' = Some ''2024-03-05T00:00:00Z'' \<and>
   state (backfill_repository_data
     \<lparr>backfill_max_items = 50, backfill_lookback_days = 30,
      lookback_since = ''2024-02-01T00:00:00Z''\<rparr>
     (\<lambda>req. RequestError)
     (\<lambda>req. if path req = ''/repos/o/r/issues''
            then Response 200 (Some ''v1'')
              [\<lparr>node_id = Some ''I_1'', item_id = Some 1, sha = None,
                updated_at = Some ''2024-03-03T00:00:00Z'', rest = []\<rparr>,
               \<lparr>node_id = Some ''I_2'', item_id = Some 2, sha = None,
                updated_at = Some ''2024-03-05T00:00:00Z'', rest = []\<rparr>]
            else RequestError)
     ''o'' ''r'' [''issues_last_processed_update_ts'' \<mapsto> ''2024-03-02T00:00:00Z''])
     ''prs_last_processed_update_ts'' = None \<and>
   greatest_stamp (Some ''2024-03-02T00:00:00Z'')
     [''2024-03-03T00:00:00Z'', ''2024-03-05T00:00:00Z''] = Some ''2024-03-05T00:00:00Z''"
  using cursor_advance [where owner = "''o''" and repo_name = "''r''"
      and cfg = "\<lparr>backfill_max_items = 50, backfill_lookback_days = 30,
                      lookback_since = ''2024-02-01T00:00:00Z''\<rparr>"
      and dt = "\<lambda>req. RequestError"
      and lt = "\<lambda>req. if path req = ''/repos/o/r/issues''
            then Response 200 (Some ''v1'')
              [\<lparr>node_id = Some ''I_1'', item_id = Some 1, sha = None,
                updated_at = Some ''2024-03-03T00:00:00Z'', rest = []\<rparr>,
               \<lparr>node_id = Some ''I_2'', item_id = Some 2, sha = None,
                updated_at = Some ''2024-03-05T00:00:00Z'', rest = []\<rparr>]
            else RequestError"
      and repo_state = "[''issues_last_processed_update_ts'' \<mapsto> ''2024-03-02T00:00:00Z'']"
      and prior = "Some ''2024-03-02T00:00:00Z''"
      and stamps = "[''2024-03-03T00:00:00Z'', ''2024-03-05T00:00:00Z'']"]
  by (simp add: fetched_issues_def fetched_prs_def issues_since_def get_repo_issues_def
      get_repo_pull_requests_def get_repo_list_paged_def get_repo_list_paged_run_def upto_1_10
      paged_step_def make_github_request_def github_request_def raise_for_status_def Let_def
      processed_items_def slice_to_def update_stamps_def greatest_stamp_def max_def)

text \<open>
  C3 as stated fails: the stored pull request cursor is 1 June; the pass fetches one pull
  request, updated on 1 January, and processes it. The cursor afterwards is still 1 June, not
  the maximum \<open>updated_at\<close> among the processed items.
\<close>

theorem cursor_keeps_later_value_counterexample:
  "fetched_prs
     \<lparr>backfill_max_items = 50, backfill_lookback_days = 0, lookback_since = ''''\<rparr>
     (\<lambda>req. if path req = ''/repos/o/r/pulls''
            then Response 200 (Some ''v1'')
              [\<lparr>node_id = Some ''PR_1'', item_id = Some 1, sha = None,
                updated_at = Some ''2024-01-01T00:00:00Z'', rest = []\<rparr>]
            else RequestError)
     ''o'' ''r'' [''prs_last_processed_update_ts'' \<mapsto> ''2024-06-01T00:00:00Z''] =
     [\<lparr>node_id = Some ''PR_1'', item_id = Some 1, sha = None,
       updated_at = Some ''2024-01-01T00:00:00Z'', rest = []\<rparr>] \<and>
   update_stamps (processed_items 50
     [\<lparr>node_id = Some ''PR_1'', item_id = Some 1, sha = None,
       updated_at = Some ''2024-01-01T00:00:00Z'', rest = []\<rparr>]) = [''2024-01-01T00:00:00Z''] \<and>
   state (backfill_repository_data
     \<lparr>backfill_max_items = 50, backfill_lookback_days = 0, lookback_since = ''''\<rparr>
     (\<lambda>req. RequestError)
     (\<lambda>req. if path req = ''/repos/o/r/pulls''
            then Response 200 (Some ''v1'')
              [\<lparr>node_id = Some ''PR_1'', item_id = Some 1, sha = None,
                updated_at = Some ''2024-01-01T00:00:00Z'', rest = []\<rparr>]
            else RequestError)
     ''o'' ''r'' [''prs_last_processed_update_ts'' \<mapsto> ''2024-06-01T00:00:00Z''])
     ''prs_last_processed_update_ts'' = Some ''2024-06-01T00:00:00Z''"
  using pass_valid(3) [where owner = "''o''" and repo_name = "''r''"
      and cfg = "\<lparr>backfill_max_items = 50, backfill_lookback_days = 0, lookback_since = ''''\<rparr>"
      and dt = "\<lambda>req. RequestError"
      and lt = "\<lambda>req. if path req = ''/repos/o/r/pulls''
            then Response 200 (Some ''v1'')
              [\<lparr>node_id = Some ''PR_1'', item_id = Some 1, sha = None,
                updated_at = Some ''2024-01-01T00:00:00Z'', rest = []\<rparr>]
            else RequestError"
      and repo_state = "[''prs_last_processed_update_ts'' \<mapsto> ''2024-06-01T00:00:00Z'']"]
  by (simp add: fetched_prs_def get_repo_pull_requests_def get_repo_list_paged_def
      get_repo_list_paged_run_def upto_1_10
      paged_step_def make_github_request_def github_request_def raise_for_status_def Let_def
      processed_items_def slice_to_def update_stamps_def greatest_stamp_def max_def)

end
